theory Spec2Isabelle
  imports Main "HOL-Library.Char_ord" "HOL-Library.List_Lexorder" "HOL-Library.Multiset"
begin

section \<open>Values of the data\<close>

text \<open>
  The listing engine of \<^verbatim>\<open>assets/js/main.js\<close> works on the array parsed from
  \<^verbatim>\<open>data/immobili.json\<close>. The fields it reads are modelled as JavaScript values:
  absent (\<^verbatim>\<open>undefined\<close>), \<^verbatim>\<open>null\<close>, a boolean, a number or a string.
  Numbers are the integer-like values of the data model, kept as mathematical integers
  (no rounding; JSON has no NaN). A string is a list of code units. The result of an
  arithmetic operation or of \<^verbatim>\<open>parseInt\<close> is a \<open>jsnum\<close>, which adds NaN.
\<close>

datatype jsnum = NaN | Fin int

datatype jsval = JUndefined | JNull | JBool bool | JNum int | JStr string

text \<open>Truthiness (ToBoolean), as used by \<^verbatim>\<open>!x\<close>, \<^verbatim>\<open>x && y\<close> and \<^verbatim>\<open>x || y\<close>.\<close>

fun truthy :: "jsval \<Rightarrow> bool" where
  "truthy JUndefined = False"
| "truthy JNull = False"
| "truthy (JBool b) = b"
| "truthy (JNum n) = (n \<noteq> 0)"
| "truthy (JStr s) = (s \<noteq> [])"

text \<open>\<^verbatim>\<open>a || b\<close> on values.\<close>

definition js_or :: "jsval \<Rightarrow> jsval \<Rightarrow> jsval" where
  "js_or a b = (if truthy a then a else b)"

text \<open>\<^verbatim>\<open>typeof v === 'number'\<close>.\<close>

fun is_number :: "jsval \<Rightarrow> bool" where
  "is_number (JNum n) = True"
| "is_number v = False"

text \<open>\<^verbatim>\<open>isNaN(x)\<close>, and the comparisons \<^verbatim>\<open>x < y\<close>, \<^verbatim>\<open>x > y\<close> on numbers: false when
  either side is NaN.\<close>

fun isNaN :: "jsnum \<Rightarrow> bool" where
  "isNaN NaN = True"
| "isNaN (Fin n) = False"

fun js_lt :: "jsnum \<Rightarrow> jsnum \<Rightarrow> bool" where
  "js_lt (Fin a) (Fin b) = (a < b)"
| "js_lt x y = False"

definition js_gt :: "jsnum \<Rightarrow> jsnum \<Rightarrow> bool" where
  "js_gt x y = js_lt y x"

text \<open>Decimal digits of a natural number, and \<^verbatim>\<open>String(v)\<close> (ToString).\<close>

definition digit_char :: "nat \<Rightarrow> char" where
  "digit_char d = char_of (48 + d)"

function decimal :: "nat \<Rightarrow> string" where
  "decimal n = (if n < 10 then [digit_char n] else decimal (n div 10) @ [digit_char (n mod 10)])"
  by pat_completeness auto
termination
  by (relation "measure (\<lambda>n. n)") auto

declare decimal.simps [simp del]

fun ToString :: "jsval \<Rightarrow> string" where
  "ToString JUndefined = ''undefined''"
| "ToString JNull = ''null''"
| "ToString (JBool b) = (if b then ''true'' else ''false'')"
| "ToString (JNum n) = (if n < 0 then CHR ''-'' # decimal (nat (- n)) else decimal (nat n))"
| "ToString (JStr s) = s"

section \<open>Listing entries and filter criteria\<close>

text \<open>
  One element of the loaded array: the properties of the object that the listing engine
  reads. \<open>id_field\<close> is the property \<^verbatim>\<open>id\<close>. \<open>immagini\<close> is the image list
  (\<open>None\<close> when the property is absent), each image with its \<^verbatim>\<open>src\<close> and \<^verbatim>\<open>alt\<close>.
\<close>

record immagine =
  src :: jsval
  alt :: jsval

record immobile =
  id_field :: jsval
  titolo :: jsval
  descrizione :: jsval
  prezzo :: jsval
  prezzoDisplay :: jsval
  tipologia :: jsval
  superficie :: jsval
  locali :: jsval
  citta :: jsval
  tipoImmobile :: jsval
  dataInserimento :: jsval
  immagini :: "immagine list option"

text \<open>
  The object returned by \<^verbatim>\<open>getFiltersFromForm\<close>. The text criteria are strings (the
  empty string when nothing is chosen); a price bound is \<^verbatim>\<open>null\<close> (\<open>None\<close>) or the
  result of \<^verbatim>\<open>parseInt\<close>, which may be NaN. \<open>tipoImmobile_filter\<close> is the property
  \<^verbatim>\<open>tipoImmobile\<close> of the criteria.
\<close>

record filters =
  contratto :: string
  prezzoMin :: "jsnum option"
  prezzoMax :: "jsnum option"
  localita :: string
  tipoImmobile_filter :: string
  ordine :: string

subsection \<open>filterImmobili\<close>

text \<open>
  The callback of \<^verbatim>\<open>immobili.filter(...)\<close> in \<^verbatim>\<open>filterImmobili\<close>, statement by
  statement. \<open>prezzo_filtro\<close> is the local \<^verbatim>\<open>prezzo\<close>:
  \<^verbatim>\<open>typeof item.prezzo === 'number' ? item.prezzo : 0\<close>.
\<close>

definition prezzo_filtro :: "immobile \<Rightarrow> jsnum" where
  "prezzo_filtro item = (case prezzo item of JNum n \<Rightarrow> Fin n | _ \<Rightarrow> Fin 0)"

text \<open>\<^verbatim>\<open>b != null && !isNaN(b) && prezzo < b\<close> and its mirror image for the upper bound.\<close>

definition below_min :: "jsnum option \<Rightarrow> jsnum \<Rightarrow> bool" where
  "below_min b p = (case b of None \<Rightarrow> False | Some m \<Rightarrow> \<not> isNaN m \<and> js_lt p m)"

definition above_max :: "jsnum option \<Rightarrow> jsnum \<Rightarrow> bool" where
  "above_max b p = (case b of None \<Rightarrow> False | Some m \<Rightarrow> \<not> isNaN m \<and> js_gt p m)"

definition filter_callback :: "filters \<Rightarrow> immobile \<Rightarrow> bool" where
  "filter_callback fs item =
     (if contratto fs \<noteq> [] \<and> tipologia item \<noteq> JStr (contratto fs) then False
      else if below_min (prezzoMin fs) (prezzo_filtro item) then False
      else if above_max (prezzoMax fs) (prezzo_filtro item) then False
      else if localita fs \<noteq> [] \<and> citta item \<noteq> JStr (localita fs) then False
      else if tipoImmobile_filter fs \<noteq> []
              \<and> js_or (tipoImmobile item) (JStr []) \<noteq> JStr (tipoImmobile_filter fs) then False
      else True)"

definition filterImmobili :: "immobile list \<Rightarrow> filters \<Rightarrow> immobile list" where
  "filterImmobili immobili fs = filter (filter_callback fs) immobili"

text \<open>
  The criteria in the words of the specification: an empty text criterion is no
  constraint, otherwise it is an exact match; a bound that is absent or failed to parse
  is no constraint, otherwise it bounds the normalized price (the number, or 0 when the
  price is missing or not a number); all of them hold together.
\<close>

definition normalized_price :: "immobile \<Rightarrow> int" where
  "normalized_price e = (case prezzo e of JNum n \<Rightarrow> n | _ \<Rightarrow> 0)"

definition active_bound :: "jsnum option \<Rightarrow> int option" where
  "active_bound b = (case b of Some (Fin m) \<Rightarrow> Some m | _ \<Rightarrow> None)"

definition criteria_hold :: "filters \<Rightarrow> immobile \<Rightarrow> bool" where
  "criteria_hold fs e \<longleftrightarrow>
     (contratto fs = [] \<or> tipologia e = JStr (contratto fs)) \<and>
     (case active_bound (prezzoMin fs) of None \<Rightarrow> True | Some m \<Rightarrow> m \<le> normalized_price e) \<and>
     (case active_bound (prezzoMax fs) of None \<Rightarrow> True | Some m \<Rightarrow> normalized_price e \<le> m) \<and>
     (localita fs = [] \<or> citta e = JStr (localita fs)) \<and>
     (tipoImmobile_filter fs = [] \<or> tipoImmobile e = JStr (tipoImmobile_filter fs))"

text \<open>
  Concrete data for the scenarios: an entry with the four properties the scenarios give
  (every other property absent), and the criteria of a form with nothing chosen.
\<close>

definition entry :: "jsval \<Rightarrow> jsval \<Rightarrow> jsval \<Rightarrow> jsval \<Rightarrow> immobile" where
  "entry i p t c = \<lparr>id_field = i, titolo = JUndefined, descrizione = JUndefined, prezzo = p,
     prezzoDisplay = JUndefined, tipologia = t, superficie = JUndefined, locali = JUndefined,
     citta = c, tipoImmobile = JUndefined, dataInserimento = JUndefined, immagini = None\<rparr>"

definition no_filters :: filters where
  "no_filters = \<lparr>contratto = [], prezzoMin = None, prezzoMax = None, localita = [],
     tipoImmobile_filter = [], ordine = ''recente''\<rparr>"

subsection \<open>getFiltersFromForm\<close>

text \<open>
  The filter form: for each control, the text of its \<^verbatim>\<open>value\<close>, or \<open>None\<close> when
  \<^verbatim>\<open>form.querySelector\<close> finds no such control.
\<close>

record form =
  contratto_value :: "string option"
  prezzo_min_value :: "string option"
  prezzo_max_value :: "string option"
  localita_value :: "string option"
  tipo_immobile_value :: "string option"
  ordine_value :: "string option"

text \<open>
  White space as \<^verbatim>\<open>trim\<close> and \<^verbatim>\<open>parseInt\<close> strip it (the code units below 256 of
  ECMAScript's white space and line terminators), and \<^verbatim>\<open>String.prototype.trim\<close>.
\<close>

definition is_space :: "char \<Rightarrow> bool" where
  "is_space c \<longleftrightarrow> of_char c \<in> {9, 10, 11, 12, 13, 32, 160 :: nat}"

definition trim :: "string \<Rightarrow> string" where
  "trim s = rev (dropWhile is_space (rev (dropWhile is_space s)))"

text \<open>
  \<^verbatim>\<open>parseInt(s, 10)\<close>: leading white space is skipped, a sign is read, and the longest
  run of decimal digits that follows is the value; with no digit the result is NaN.
  The value is the mathematical integer (no rounding to a double).
\<close>

definition is_digit :: "char \<Rightarrow> bool" where
  "is_digit c \<longleftrightarrow> 48 \<le> (of_char c :: nat) \<and> (of_char c :: nat) \<le> 57"

definition digits_value :: "string \<Rightarrow> int" where
  "digits_value z = fold (\<lambda>c n. 10 * n + (int (of_char c) - 48)) z 0"

definition parseInt :: "string \<Rightarrow> jsnum" where
  "parseInt s =
     (let s1 = dropWhile is_space s;
          sign = (if take 1 s1 = ''-'' then - 1 else 1);
          s2 = (if take 1 s1 = ''-'' \<or> take 1 s1 = ''+'' then drop 1 s1 else s1);
          z = takeWhile is_digit s2
      in if z = [] then NaN else Fin (sign * digits_value z))"

text \<open>
  \<^verbatim>\<open>el && el.value.trim()\<close> for a bound: \<^verbatim>\<open>null\<close> when the control is missing; and
  \<^verbatim>\<open>v === '' ? null : parseInt(v, 10)\<close>, where \<^verbatim>\<open>parseInt\<close> reads \<^verbatim>\<open>String(v)\<close>.
\<close>

definition bound_text :: "string option \<Rightarrow> jsval" where
  "bound_text el = (case el of None \<Rightarrow> JNull | Some v \<Rightarrow> JStr (trim v))"

definition bound_of_text :: "jsval \<Rightarrow> jsnum option" where
  "bound_of_text v = (if v = JStr [] then None else Some (parseInt (ToString v)))"

text \<open>\<^verbatim>\<open>(el && el.value) || dflt\<close> for a text criterion.\<close>

definition value_or :: "string option \<Rightarrow> string \<Rightarrow> string" where
  "value_or el dflt = (case el of None \<Rightarrow> dflt | Some v \<Rightarrow> if v = [] then dflt else v)"

definition getFiltersFromForm :: "form option \<Rightarrow> filters" where
  "getFiltersFromForm fo =
     (case fo of
        None \<Rightarrow> \<lparr>contratto = [], prezzoMin = None, prezzoMax = None, localita = [],
                 tipoImmobile_filter = [], ordine = ''recente''\<rparr>
      | Some f \<Rightarrow>
          (let prezzoMinVal = bound_text (prezzo_min_value f);
               prezzoMaxVal = bound_text (prezzo_max_value f)
           in \<lparr>contratto = value_or (contratto_value f) [],
                prezzoMin = bound_of_text prezzoMinVal,
                prezzoMax = bound_of_text prezzoMaxVal,
                localita = value_or (localita_value f) [],
                tipoImmobile_filter = value_or (tipo_immobile_value f) [],
                ordine = value_or (ordine_value f) ''recente''\<rparr>))"

text \<open>A filter form for the examples: every control present, with the given bound texts.\<close>

definition form_with_bounds :: "string \<Rightarrow> string \<Rightarrow> form" where
  "form_with_bounds lo hi = \<lparr>contratto_value = Some [], prezzo_min_value = Some lo,
     prezzo_max_value = Some hi, localita_value = Some [], tipo_immobile_value = Some [],
     ordine_value = Some ''recente''\<rparr>"

section \<open>Sorting\<close>

text \<open>
  What the code takes from the host: the number a string converts to in an arithmetic
  operation (\<^verbatim>\<open>'12' - 0\<close>), and the locale's string comparison behind
  \<^verbatim>\<open>String.prototype.localeCompare\<close> (negative, zero or positive).
\<close>

record host =
  StringToNumber :: "string \<Rightarrow> jsnum"
  localeCompare :: "string \<Rightarrow> string \<Rightarrow> int"

text \<open>ToNumber, and \<^verbatim>\<open>x - y\<close> on numbers.\<close>

fun ToNumber :: "host \<Rightarrow> jsval \<Rightarrow> jsnum" where
  "ToNumber h JUndefined = NaN"
| "ToNumber h JNull = Fin 0"
| "ToNumber h (JBool b) = Fin (if b then 1 else 0)"
| "ToNumber h (JNum n) = Fin n"
| "ToNumber h (JStr s) = StringToNumber h s"

fun js_minus :: "jsnum \<Rightarrow> jsnum \<Rightarrow> jsnum" where
  "js_minus (Fin a) (Fin b) = Fin (a - b)"
| "js_minus x y = NaN"

text \<open>
  Exceptions. \<open>TypeError\<close> is raised by calling a method a value does not have;
  \<open>Error\<close> is the \<^verbatim>\<open>throw new Error(...)\<close> of \<^verbatim>\<open>fetchImmobili\<close>; the other two are the
  rejections of \<^verbatim>\<open>fetch\<close> and of \<^verbatim>\<open>response.json()\<close>.
\<close>

datatype error = TypeError | Error string | NetworkError | SyntaxError

text \<open>
  The three comparators of \<^verbatim>\<open>sortImmobili\<close>. \<open>prezzo_ordine\<close> is the operand
  \<^verbatim>\<open>(a.prezzo || 0)\<close> as the subtraction converts it; \<open>data_ordine\<close> is
  \<^verbatim>\<open>a.dataInserimento || ''\<close>. \<^verbatim>\<open>dateB.localeCompare(dateA)\<close> is a TypeError when
  \<^verbatim>\<open>dateB\<close> is not a string (a number or \<^verbatim>\<open>true\<close> has no such method), and compares
  with \<^verbatim>\<open>String(dateA)\<close> otherwise.
\<close>

definition prezzo_ordine :: "host \<Rightarrow> immobile \<Rightarrow> jsnum" where
  "prezzo_ordine h a = ToNumber h (js_or (prezzo a) (JNum 0))"

definition data_ordine :: "immobile \<Rightarrow> jsval" where
  "data_ordine a = js_or (dataInserimento a) (JStr [])"

definition cmp_prezzo_crescente :: "host \<Rightarrow> immobile \<Rightarrow> immobile \<Rightarrow> error + jsnum" where
  "cmp_prezzo_crescente h a b = Inr (js_minus (prezzo_ordine h a) (prezzo_ordine h b))"

definition cmp_prezzo_decrescente :: "host \<Rightarrow> immobile \<Rightarrow> immobile \<Rightarrow> error + jsnum" where
  "cmp_prezzo_decrescente h a b = Inr (js_minus (prezzo_ordine h b) (prezzo_ordine h a))"

definition cmp_recente :: "host \<Rightarrow> immobile \<Rightarrow> immobile \<Rightarrow> error + jsnum" where
  "cmp_recente h a b =
     (let dateA = data_ordine a; dateB = data_ordine b
      in case dateB of
           JStr s \<Rightarrow> Inr (Fin (localeCompare h s (ToString dateA)))
         | _ \<Rightarrow> Inl TypeError)"

text \<open>
  \<^verbatim>\<open>Array.prototype.sort(comparefn)\<close>. ECMAScript requires the sort to be stable and,
  when the comparator is consistent on the elements, to return them in the
  comparator's order; the two together determine the result (lemma
  \<open>Array_sort_unique\<close>), which is the one of the stable insertion sort below. A
  comparator result of NaN counts as 0 (\<open>sort_compare\<close>); an exception of the
  comparator ends the sort. Where the comparator is not consistent or raises, the
  order and the calls made are left to the implementation, so the theorems on sorting
  assume a consistent comparator.
\<close>

fun sort_compare :: "jsnum \<Rightarrow> int" where
  "sort_compare NaN = 0"
| "sort_compare (Fin v) = v"

fun sort_insert :: "('a \<Rightarrow> 'a \<Rightarrow> error + jsnum) \<Rightarrow> 'a \<Rightarrow> 'a list \<Rightarrow> error + 'a list" where
  "sort_insert cmp x [] = Inr [x]"
| "sort_insert cmp x (y # ys) =
     (case cmp x y of
        Inl e \<Rightarrow> Inl e
      | Inr v \<Rightarrow>
          if sort_compare v \<le> 0 then Inr (x # y # ys)
          else (case sort_insert cmp x ys of Inl e \<Rightarrow> Inl e | Inr zs \<Rightarrow> Inr (y # zs)))"

fun Array_sort :: "('a \<Rightarrow> 'a \<Rightarrow> error + jsnum) \<Rightarrow> 'a list \<Rightarrow> error + 'a list" where
  "Array_sort cmp [] = Inr []"
| "Array_sort cmp (x # xs) =
     (case Array_sort cmp xs of Inl e \<Rightarrow> Inl e | Inr ys \<Rightarrow> sort_insert cmp x ys)"

text \<open>
  The conditions of ECMAScript on a comparator \<open>c\<close> (its results read as integers) to
  be consistent on a set of values.
\<close>

definition consistent_comparator :: "('a \<Rightarrow> 'a \<Rightarrow> int) \<Rightarrow> 'a set \<Rightarrow> bool" where
  "consistent_comparator c S \<longleftrightarrow>
     (\<forall>a\<in>S. c a a = 0) \<and>
     (\<forall>a\<in>S. \<forall>b\<in>S. c a b = 0 \<longrightarrow> c b a = 0) \<and>
     (\<forall>a\<in>S. \<forall>b\<in>S. \<forall>d\<in>S. c a b = 0 \<and> c b d = 0 \<longrightarrow> c a d = 0) \<and>
     (\<forall>a\<in>S. \<forall>b\<in>S. \<forall>d\<in>S. c a b < 0 \<and> c b d < 0 \<longrightarrow> c a d < 0) \<and>
     (\<forall>a\<in>S. \<forall>b\<in>S. \<forall>d\<in>S. c a b > 0 \<and> c b d > 0 \<longrightarrow> c a d > 0)"

text \<open>
  \<^verbatim>\<open>sortImmobili\<close>, on the array as the list of its elements: \<^verbatim>\<open>immobili.slice()\<close> is
  a copy, which is sorted and returned.
\<close>

definition sortImmobili :: "host \<Rightarrow> immobile list \<Rightarrow> string \<Rightarrow> error + immobile list" where
  "sortImmobili h immobili ord =
     (let list = immobili
      in if ord = ''prezzo-crescente'' then Array_sort (cmp_prezzo_crescente h) list
         else if ord = ''prezzo-decrescente'' then Array_sort (cmp_prezzo_decrescente h) list
         else Array_sort (cmp_recente h) list)"

text \<open>
  \<open>cmp_le cmp a b\<close>: the comparator returns, and \<open>a\<close> does not come after \<open>b\<close> in
  its order (\<^verbatim>\<open>comparefn(a, b) <= 0\<close>, NaN read as 0).
\<close>

definition cmp_le :: "('a \<Rightarrow> 'a \<Rightarrow> error + jsnum) \<Rightarrow> 'a \<Rightarrow> 'a \<Rightarrow> bool" where
  "cmp_le cmp a b = (case cmp a b of Inl e \<Rightarrow> False | Inr v \<Rightarrow> sort_compare v \<le> 0)"

text \<open>
  Inputs on which the comparator of a sort mode is consistent. In the price modes no
  operand of the subtraction is NaN. In the default mode every date operand is a
  string (\<^verbatim>\<open>dataInserimento\<close> is a string or is falsy) and the host's
  \<^verbatim>\<open>localeCompare\<close> is consistent on these strings.
\<close>

fun is_string :: "jsval \<Rightarrow> bool" where
  "is_string (JStr s) = True"
| "is_string v = False"

definition sortable_prices :: "host \<Rightarrow> immobile list \<Rightarrow> bool" where
  "sortable_prices h immobili = list_all (\<lambda>e. \<not> isNaN (prezzo_ordine h e)) immobili"

definition sortable_dates :: "host \<Rightarrow> immobile list \<Rightarrow> bool" where
  "sortable_dates h immobili \<longleftrightarrow>
     list_all (\<lambda>e. is_string (data_ordine e)) immobili \<and>
     consistent_comparator (localeCompare h) (set (map (\<lambda>e. ToString (data_ordine e)) immobili))"

definition sortable :: "host \<Rightarrow> string \<Rightarrow> immobile list \<Rightarrow> bool" where
  "sortable h ord immobili =
     (if ord = ''prezzo-crescente'' \<or> ord = ''prezzo-decrescente'' then sortable_prices h immobili
      else sortable_dates h immobili)"

text \<open>
  A host for the examples: its \<^verbatim>\<open>localeCompare\<close> is the order of the code units, and
  its string-to-number conversion reads unsigned digit strings (the only strings the
  examples convert).
\<close>

definition sample_host :: host where
  "sample_host = \<lparr>StringToNumber = (\<lambda>s. if s \<noteq> [] \<and> list_all is_digit s then Fin (digits_value s) else NaN),
     localeCompare = (\<lambda>s t. if s < t then - 1 else if t < s then 1 else 0)\<rparr>"

text \<open>An entry of the examples with a date: its id and \<^verbatim>\<open>dataInserimento\<close>, no price.\<close>

definition dated :: "int \<Rightarrow> jsval \<Rightarrow> immobile" where
  "dated i d = (entry (JNum i) JUndefined JUndefined JUndefined)\<lparr>dataInserimento := d\<rparr>"

section \<open>Arrays and objects in memory\<close>

text \<open>
  To state what the two operations leave untouched, arrays and entry objects are
  placed in a store: an array is a list of references to objects, an object is the
  record of its properties, and the addresses below \<open>next_array\<close> are the arrays
  allocated so far. \<^verbatim>\<open>Array.prototype.filter\<close> and \<^verbatim>\<open>slice\<close> allocate a new array;
  \<^verbatim>\<open>sort\<close> rewrites the array it is called on. None of them writes to an object.
\<close>

record store =
  objects :: "nat \<Rightarrow> immobile"
  arrays :: "nat \<Rightarrow> nat list"
  next_array :: nat

definition new_array :: "store \<Rightarrow> nat list \<Rightarrow> store \<times> nat" where
  "new_array st refs =
     (st\<lparr>arrays := (arrays st)(next_array st := refs), next_array := Suc (next_array st)\<rparr>,
      next_array st)"

definition Array_filter_heap :: "store \<Rightarrow> nat \<Rightarrow> (immobile \<Rightarrow> bool) \<Rightarrow> store \<times> nat" where
  "Array_filter_heap st a p = new_array st (filter (\<lambda>r. p (objects st r)) (arrays st a))"

definition Array_slice_heap :: "store \<Rightarrow> nat \<Rightarrow> store \<times> nat" where
  "Array_slice_heap st a = new_array st (arrays st a)"

text \<open>
  The in-place sort. When the comparator raises, the exception leaves with the store;
  the array being sorted is kept as it was (what an implementation has moved by then
  is its own affair, and in \<^verbatim>\<open>sortImmobili\<close> that array is the copy, which nothing
  refers to afterwards).
\<close>

definition Array_sort_heap ::
  "store \<Rightarrow> nat \<Rightarrow> (immobile \<Rightarrow> immobile \<Rightarrow> error + jsnum) \<Rightarrow> error \<times> store + store" where
  "Array_sort_heap st a cmp =
     (case Array_sort (\<lambda>r s. cmp (objects st r) (objects st s)) (arrays st a) of
        Inl e \<Rightarrow> Inl (e, st)
      | Inr refs \<Rightarrow> Inr (st\<lparr>arrays := (arrays st)(a := refs)\<rparr>))"

text \<open>
  \<^verbatim>\<open>filterImmobili\<close> and \<^verbatim>\<open>sortImmobili\<close> on the store: the argument and the result
  are addresses of arrays.
\<close>

definition filterImmobili_heap :: "store \<Rightarrow> nat \<Rightarrow> filters \<Rightarrow> store \<times> nat" where
  "filterImmobili_heap st immobili fs = Array_filter_heap st immobili (filter_callback fs)"

definition sortImmobili_heap ::
  "host \<Rightarrow> store \<Rightarrow> nat \<Rightarrow> string \<Rightarrow> error \<times> store + store \<times> nat" where
  "sortImmobili_heap h st immobili ord =
     (case Array_slice_heap st immobili of
        (st1, list) \<Rightarrow>
          (case (if ord = ''prezzo-crescente'' then Array_sort_heap st1 list (cmp_prezzo_crescente h)
                 else if ord = ''prezzo-decrescente'' then Array_sort_heap st1 list (cmp_prezzo_decrescente h)
                 else Array_sort_heap st1 list (cmp_recente h)) of
             Inl err \<Rightarrow> Inl err
           | Inr st2 \<Rightarrow> Inr (st2, list)))"

text \<open>The entries an array holds, in order.\<close>

definition contents :: "store \<Rightarrow> nat \<Rightarrow> immobile list" where
  "contents st a = map (objects st) (arrays st a)"

text \<open>A store for the examples: object \<open>i\<close> is the entry with id \<open>i\<close> and price \<open>10 - i\<close>;
  array 0 holds the objects 1, 2, 3.\<close>

definition sample_store :: store where
  "sample_store = \<lparr>objects = (\<lambda>i. entry (JNum (int i)) (JNum (10 - int i)) (JStr ''sale'') (JStr ''Roma'')),
     arrays = (\<lambda>a. if a = 0 then [1, 2, 3] else []), next_array = 1\<rparr>"

section \<open>Loading the data\<close>

text \<open>
  What the network does with the one request: the transport fails, or a response
  arrives with a status and a body; the body is not JSON, or it parses to an array
  of entries or to some other JSON value.
\<close>

datatype json_data = Data_array "immobile list" | Data_other

datatype json_body = Invalid_json | Valid json_data

datatype fetch_outcome = Transport_failure | Response nat json_body

text \<open>
  A settled promise is its rejection reason or its value. \<^verbatim>\<open>p.then(f)\<close> runs \<open>f\<close> on
  the value (\<open>f\<close> returns, raises, or returns another promise); \<^verbatim>\<open>p.catch(g)\<close> runs
  \<open>g\<close> on the reason.
\<close>

definition then_promise :: "error + 'a \<Rightarrow> ('a \<Rightarrow> error + 'b) \<Rightarrow> error + 'b" where
  "then_promise p f = (case p of Inl e \<Rightarrow> Inl e | Inr v \<Rightarrow> f v)"

definition catch_promise :: "error + 'a \<Rightarrow> (error \<Rightarrow> error + 'a) \<Rightarrow> error + 'a" where
  "catch_promise p g = (case p of Inl e \<Rightarrow> g e | Inr v \<Rightarrow> Inr v)"

text \<open>
  \<^verbatim>\<open>fetch(path)\<close> rejects on a transport failure and resolves to the response
  otherwise; \<^verbatim>\<open>response.ok\<close> is a status from 200 to 299; \<^verbatim>\<open>response.json()\<close> rejects
  when the body is not JSON.
\<close>

definition fetch :: "fetch_outcome \<Rightarrow> error + nat \<times> json_body" where
  "fetch outcome = (case outcome of Transport_failure \<Rightarrow> Inl NetworkError
                                  | Response status body \<Rightarrow> Inr (status, body))"

definition response_ok :: "nat \<Rightarrow> bool" where
  "response_ok status \<longleftrightarrow> 200 \<le> status \<and> status \<le> 299"

definition response_json :: "json_body \<Rightarrow> error + json_data" where
  "response_json body = (case body of Invalid_json \<Rightarrow> Inl SyntaxError | Valid d \<Rightarrow> Inr d)"

text \<open>\<^verbatim>\<open>fetchImmobili\<close> of the home and detail pages.\<close>

definition fetchImmobili :: "fetch_outcome \<Rightarrow> error + immobile list" where
  "fetchImmobili outcome =
     catch_promise
       (then_promise
          (then_promise (fetch outcome)
             (\<lambda>(status, body).
                if \<not> response_ok status then Inl (Error (''Risposta non ok: '' @ decimal status))
                else response_json body))
          (\<lambda>d. Inr (case d of Data_array xs \<Rightarrow> xs | Data_other \<Rightarrow> [])))
       (\<lambda>e. Inr [])"

text \<open>\<^verbatim>\<open>fetchImmobili\<close> of the listing page (the second module of the file), the same
  chain written again.\<close>

definition fetchImmobili_listing :: "fetch_outcome \<Rightarrow> error + immobile list" where
  "fetchImmobili_listing outcome =
     catch_promise
       (then_promise
          (then_promise (fetch outcome)
             (\<lambda>(status, body).
                if \<not> response_ok status then Inl (Error (''Risposta non ok: '' @ decimal status))
                else response_json body))
          (\<lambda>d. Inr (case d of Data_array xs \<Rightarrow> xs | Data_other \<Rightarrow> [])))
       (\<lambda>e. Inr [])"

section \<open>Options of the filter controls\<close>

text \<open>
  The first half of \<^verbatim>\<open>populateFilterOptions\<close>: the two arrays \<^verbatim>\<open>citta\<close> and \<^verbatim>\<open>tipi\<close>
  it computes before writing them into the two select controls as options (the
  markup written into the controls is not modelled). \<open>push_new\<close> is
  \<^verbatim>\<open>if (v && acc.indexOf(v) === -1) acc.push(v)\<close>; \<^verbatim>\<open>indexOf\<close> compares with
  \<^verbatim>\<open>===\<close>. \<^verbatim>\<open>sort()\<close> with no comparator orders the elements by their string forms,
  in the order of the code units.
\<close>

definition push_new :: "jsval list \<Rightarrow> jsval \<Rightarrow> jsval list" where
  "push_new acc v = (if truthy v \<and> v \<notin> set acc then acc @ [v] else acc)"

definition collect_step :: "jsval list \<times> jsval list \<Rightarrow> immobile \<Rightarrow> jsval list \<times> jsval list" where
  "collect_step acc item = (push_new (fst acc) (citta item), push_new (snd acc) (tipoImmobile item))"

definition default_compare :: "jsval \<Rightarrow> jsval \<Rightarrow> error + jsnum" where
  "default_compare x y =
     Inr (Fin (if ToString x < ToString y then - 1 else if ToString y < ToString x then 1 else 0))"

definition populateFilterOptions_arrays ::
  "immobile list \<Rightarrow> error + jsval list \<times> jsval list" where
  "populateFilterOptions_arrays immobili =
     (case foldl collect_step ([], []) immobili of
        (citta_acc, tipi) \<Rightarrow>
          (case Array_sort default_compare citta_acc of
             Inl e \<Rightarrow> Inl e
           | Inr citta_sorted \<Rightarrow>
               (case Array_sort default_compare tipi of
                  Inl e \<Rightarrow> Inl e
                | Inr tipi_sorted \<Rightarrow> Inr (citta_sorted, tipi_sorted))))"

text \<open>
  Alphabetical order as the word is commonly read, for comparison with the order the
  code produces: the order of the texts with the case of the letters A to Z
  disregarded.
\<close>

definition to_lower :: "char \<Rightarrow> char" where
  "to_lower c =
     (if 65 \<le> (of_char c :: nat) \<and> (of_char c :: nat) \<le> 90 then char_of (of_char c + 32 :: nat)
      else c)"

definition alphabetical_key :: "string \<Rightarrow> string" where
  "alphabetical_key s = map to_lower s"

section \<open>Cards and the home page\<close>

text \<open>
  \<^verbatim>\<open>getPrimaImmagine\<close>, \<^verbatim>\<open>getBadgeClass\<close>, \<^verbatim>\<open>getBadgeText\<close> and \<^verbatim>\<open>buildCardHtml\<close>. The
  markup of a card is kept as the values interpolated into it, before \<^verbatim>\<open>escapeHtml\<close>:
  the image, the badge, the title, the line of surface, rooms and city, the displayed
  price, and the id that \<^verbatim>\<open>encodeURIComponent\<close> puts into the link.
\<close>

definition getPrimaImmagine :: "immobile \<Rightarrow> immagine" where
  "getPrimaImmagine e =
     (case immagini e of
        Some (im # rest) \<Rightarrow>
          if truthy (src im) then \<lparr>src = src im, alt = js_or (alt im) (titolo e)\<rparr>
          else \<lparr>src = JStr ''assets/img/placeholders/placeholder.jpg'',
                alt = js_or (titolo e) (JStr ''Immobile'')\<rparr>
      | _ \<Rightarrow> \<lparr>src = JStr ''assets/img/placeholders/placeholder.jpg'',
               alt = js_or (titolo e) (JStr ''Immobile'')\<rparr>)"

definition getBadgeClass :: "jsval \<Rightarrow> string" where
  "getBadgeClass t = (if t = JStr ''affitto'' then ''badge badge--affitto'' else ''badge badge--vendita'')"

definition getBadgeText :: "jsval \<Rightarrow> string" where
  "getBadgeText t = (if t = JStr ''affitto'' then ''Affitto'' else ''Vendita'')"

record card =
  card_img :: immagine
  card_badge_class :: string
  card_badge_text :: string
  card_title :: jsval
  card_meta :: string
  card_price :: jsval
  card_link_id :: jsval

definition buildCardHtml :: "immobile \<Rightarrow> card" where
  "buildCardHtml e =
     \<lparr>card_img = getPrimaImmagine e,
      card_badge_class = getBadgeClass (tipologia e),
      card_badge_text = getBadgeText (tipologia e),
      card_title = titolo e,
      card_meta = ToString (superficie e) @ [CHR '' '', CHR ''m'', CHR 0xB2, CHR '' '', CHR 0xB7, CHR '' '']
                  @ ToString (locali e) @ '' locali '' @ [CHR 0xB7, CHR '' ''] @ ToString (citta e),
      card_price = js_or (prezzoDisplay e) (JStr []),
      card_link_id = id_field e\<rparr>"

text \<open>
  The home page: the grid \<^verbatim>\<open>#home-immobili-grid\<close> with its \<^verbatim>\<open>style.display\<close> and the
  cards in it, and the \<^verbatim>\<open>style.display\<close> of the fallback \<^verbatim>\<open>#home-immobili-fallback\<close>;
  \<open>None\<close> for an element the page does not have.
\<close>

record grid_el =
  grid_display :: string
  grid_cards :: "card list"

record home_page =
  home_grid :: "grid_el option"
  home_fallback :: "string option"

definition MAX_CARD_HOME :: nat where
  "MAX_CARD_HOME = 6"

definition showFallback :: "home_page \<Rightarrow> home_page" where
  "showFallback p =
     p\<lparr>home_grid := map_option (\<lambda>g. g\<lparr>grid_display := ''none''\<rparr>) (home_grid p),
       home_fallback := map_option (\<lambda>d. ''block'') (home_fallback p)\<rparr>"

definition hideFallback :: "home_page \<Rightarrow> home_page" where
  "hideFallback p =
     p\<lparr>home_fallback := map_option (\<lambda>d. ''none'') (home_fallback p),
       home_grid := map_option (\<lambda>g. g\<lparr>grid_display := []\<rparr>) (home_grid p)\<rparr>"

text \<open>
  \<^verbatim>\<open>initHomeImmobili\<close>, given what the request does. The callback shows the first
  \<open>MAX_CARD_HOME\<close> entries (\<^verbatim>\<open>immobili.slice(0, MAX_CARD_HOME)\<close>); a rejection shows the
  fallback.
\<close>

definition initHomeImmobili :: "home_page \<Rightarrow> fetch_outcome \<Rightarrow> home_page" where
  "initHomeImmobili p outcome =
     (if home_grid p = None then p
      else case fetchImmobili outcome of
             Inl e \<Rightarrow> showFallback p
           | Inr immobili \<Rightarrow>
               (let slice = take MAX_CARD_HOME immobili
                in if length slice = 0 then showFallback p
                   else (let p1 = hideFallback p
                         in p1\<lparr>home_grid :=
                                map_option (\<lambda>g. g\<lparr>grid_cards := map buildCardHtml slice\<rparr>) (home_grid p1)\<rparr>)))"

text \<open>A home page before the script runs, for the examples.\<close>

definition sample_home :: home_page where
  "sample_home = \<lparr>home_grid = Some \<lparr>grid_display = [], grid_cards = []\<rparr>, home_fallback = Some ''none''\<rparr>"

section \<open>The detail page\<close>

text \<open>
  \<^verbatim>\<open>getQueryParam\<close> on the value \<^verbatim>\<open>URLSearchParams.get\<close> gives (\<open>None\<close> for \<^verbatim>\<open>null\<close>),
  and \<^verbatim>\<open>findImmobileById\<close> with its loop.
\<close>

definition getQueryParam :: "string option \<Rightarrow> jsval" where
  "getQueryParam val = (case val of None \<Rightarrow> JNull | Some v \<Rightarrow> if v \<noteq> [] then JStr v else JNull)"

fun find_loop :: "immobile list \<Rightarrow> jsval \<Rightarrow> immobile option" where
  "find_loop [] ident = None"
| "find_loop (item # rest) ident =
     (if ToString (id_field item) = ToString ident then Some item else find_loop rest ident)"

definition findImmobileById :: "immobile list \<Rightarrow> jsval \<Rightarrow> immobile option" where
  "findImmobileById immobili ident =
     (if \<not> truthy ident \<or> length immobili = 0 then None else find_loop immobili ident)"

text \<open>
  \<^verbatim>\<open>escapeHtml\<close>: the empty string for \<^verbatim>\<open>null\<close> and \<^verbatim>\<open>undefined\<close>, otherwise the string
  form as the serialisation of a text node escapes it.
\<close>

definition escape_char :: "char \<Rightarrow> string" where
  "escape_char c =
     (if c = CHR ''&'' then ''&amp;'' else if c = CHR ''<'' then ''&lt;''
      else if c = CHR ''>'' then ''&gt;'' else if c = CHR 0xA0 then ''&nbsp;'' else [c])"

definition escapeHtml :: "jsval \<Rightarrow> string" where
  "escapeHtml v = (if v = JNull \<or> v = JUndefined then [] else concat (map escape_char (ToString v)))"

text \<open>
  The structured-data blocks. A block in the document is an element with an id and
  the object whose JSON text the element holds; \<open>Foreign\<close> is the content of an
  element that this code did not create.
\<close>

record offer =
  offer_name :: jsval
  offer_description :: jsval
  offer_url :: string
  offer_price :: int
  offer_priceCurrency :: string
  offer_availability :: string
  offer_seller_name :: string

record agent =
  agent_id :: string
  agent_name :: string
  agent_url :: string
  agent_telephone :: string

datatype block_content = Offer_block offer | Agent_block agent | Foreign string

record element =
  el_id :: string
  el_content :: block_content

text \<open>The gallery written by \<^verbatim>\<open>renderGallery\<close>: the main image and the thumbnails.\<close>

record gallery_view =
  main_src :: jsval
  main_alt :: jsval
  thumbs :: "immagine list"

text \<open>
  The element \<^verbatim>\<open>#immobile-detail\<close>: its \<^verbatim>\<open>style.display\<close>; the gallery container
  (\<open>None\<close> when the page has none, and inside it the gallery once one is rendered);
  and the entry from which the breadcrumb, header, description, details and contact
  sections were last written (the markup of these sections is not modelled).
\<close>

record detail_el =
  detail_display :: string
  detail_gallery :: "gallery_view option option"
  detail_sections :: "immobile option"

text \<open>
  The document of the detail page: the location, the \<^verbatim>\<open>id\<close> parameter of the query
  string, the title, the \<^verbatim>\<open>content\<close> of the three meta elements (\<open>None\<close> for a missing
  element), the children of \<^verbatim>\<open>head\<close> that carry an id and the other elements that
  carry one, in document order, the detail element and the \<^verbatim>\<open>style.display\<close> of
  \<^verbatim>\<open>#immobile-not-found\<close>.
\<close>

record page =
  location_href :: string
  location_origin :: string
  location_pathname :: string
  query_id :: "string option"
  doc_title :: string
  meta_description :: "string option"
  og_title :: "string option"
  og_description :: "string option"
  doc_head :: "element list"
  doc_body :: "element list"
  detail_wrap :: "detail_el option"
  not_found_display :: "string option"

text \<open>\<^verbatim>\<open>document.getElementById\<close> (the first element in document order) and
  \<^verbatim>\<open>element.remove()\<close> for the element it returns.\<close>

definition getElementById :: "page \<Rightarrow> string \<Rightarrow> element option" where
  "getElementById p i = find (\<lambda>x. el_id x = i) (doc_head p @ doc_body p)"

fun remove_first :: "string \<Rightarrow> element list \<Rightarrow> element list" where
  "remove_first i [] = []"
| "remove_first i (x # xs) = (if el_id x = i then xs else x # remove_first i xs)"

definition remove_element :: "page \<Rightarrow> string \<Rightarrow> page" where
  "remove_element p i =
     (if list_ex (\<lambda>x. el_id x = i) (doc_head p) then p\<lparr>doc_head := remove_first i (doc_head p)\<rparr>
      else p\<lparr>doc_body := remove_first i (doc_body p)\<rparr>)"

text \<open>
  \<^verbatim>\<open>updateMetaTags\<close>. \<^verbatim>\<open>.slice(0, 160)\<close> is called on \<^verbatim>\<open>descrizione\<close> when that is
  truthy, which is a TypeError unless it is a string; otherwise on the sentence put
  together from the other properties.
\<close>

definition meta_sentence :: "immobile \<Rightarrow> string" where
  "meta_sentence e =
     ToString (titolo e) @ '', '' @ ToString (superficie e) @ [CHR '' '', CHR ''m'', CHR 0xB2, CHR '','', CHR '' '']
     @ ToString (locali e) @ '' locali, '' @ ToString (citta e) @ ''. ''
     @ ToString (js_or (prezzoDisplay e) (JStr []))"

definition updateMetaTags :: "page \<Rightarrow> immobile \<Rightarrow> error + page" where
  "updateMetaTags p e =
     (let title = escapeHtml (titolo e) @ '' | Immobili | Agenzia Immobiliare''
      in case (if truthy (descrizione e)
               then (case descrizione e of JStr s \<Rightarrow> Inr (take 160 s) | _ \<Rightarrow> Inl TypeError)
               else Inr (take 160 (meta_sentence e))) of
           Inl err \<Rightarrow> Inl err
         | Inr desc \<Rightarrow>
             Inr (p\<lparr>doc_title := title,
                    meta_description := map_option (\<lambda>c. desc) (meta_description p),
                    og_title := map_option (\<lambda>c. title) (og_title p),
                    og_description := map_option (\<lambda>c. desc) (og_description p)\<rparr>))"

text \<open>
  \<^verbatim>\<open>injectJsonLdOffer\<close>. \<open>offer_script\<close> is the script element it creates for the
  page address and the entry.
\<close>

definition offer_script :: "string \<Rightarrow> immobile \<Rightarrow> element" where
  "offer_script url e =
     \<lparr>el_id = ''jsonld-offer'',
      el_content = Offer_block
        \<lparr>offer_name = js_or (titolo e) (JStr []),
         offer_description = js_or (descrizione e) (JStr []),
         offer_url = url,
         offer_price = (case prezzo e of JNum n \<Rightarrow> n | _ \<Rightarrow> 0),
         offer_priceCurrency = ''EUR'',
         offer_availability = ''https://schema.org/InStock'',
         offer_seller_name = ''Agenzia Immobiliare''\<rparr>\<rparr>"

definition injectJsonLdOffer :: "page \<Rightarrow> immobile \<Rightarrow> page" where
  "injectJsonLdOffer p e =
     (let p1 = (case getElementById p ''jsonld-offer'' of
                  Some existing \<Rightarrow> remove_element p ''jsonld-offer''
                | None \<Rightarrow> p);
          url = location_href p1;
          script = offer_script url e
      in p1\<lparr>doc_head := doc_head p1 @ [script]\<rparr>)"






text \<open>\<^verbatim>\<open>renderGallery\<close> and \<^verbatim>\<open>renderImmobileDetail\<close>.\<close>

definition renderGallery :: "immobile \<Rightarrow> gallery_view" where
  "renderGallery e =
     (case immagini e of
        Some (im # rest) \<Rightarrow>
          \<lparr>main_src = src im, main_alt = alt im,
           thumbs = (if length (im # rest) > 1 then im # rest else [])\<rparr>
      | _ \<Rightarrow> \<lparr>main_src = src (getPrimaImmagine e), main_alt = alt (getPrimaImmagine e), thumbs = []\<rparr>)"

definition renderImmobileDetail :: "page \<Rightarrow> immobile \<Rightarrow> page" where
  "renderImmobileDetail p e =
     (case detail_wrap p of
        None \<Rightarrow> p
      | Some wrap \<Rightarrow>
          p\<lparr>not_found_display := map_option (\<lambda>d. ''none'') (not_found_display p),
            detail_wrap := Some (wrap\<lparr>detail_display := [],
                                       detail_gallery := map_option (\<lambda>g. Some (renderGallery e)) (detail_gallery wrap),
                                       detail_sections := Some e\<rparr>)\<rparr>)"

text \<open>\<^verbatim>\<open>showImmobileFallback\<close> and \<^verbatim>\<open>initImmobileDetail\<close>, given what the request does.\<close>

definition showImmobileFallback :: "page \<Rightarrow> page" where
  "showImmobileFallback p =
     p\<lparr>detail_wrap := map_option (\<lambda>w. w\<lparr>detail_display := ''none''\<rparr>) (detail_wrap p),
       not_found_display := map_option (\<lambda>d. ''block'') (not_found_display p)\<rparr>"

definition initImmobileDetail :: "page \<Rightarrow> fetch_outcome \<Rightarrow> page" where
  "initImmobileDetail p outcome =
     (if detail_wrap p = None then p
      else (let ident = getQueryParam (query_id p)
            in if \<not> truthy ident then showImmobileFallback p
               else (case then_promise (fetchImmobili outcome)
                            (\<lambda>immobili.
                               case findImmobileById immobili ident of
                                 None \<Rightarrow> Inr (showImmobileFallback p)
                               | Some immobile \<Rightarrow>
                                   (case updateMetaTags p immobile of
                                      Inl err \<Rightarrow> Inl err
                                    | Inr p1 \<Rightarrow>
                                        Inr (renderImmobileDetail (injectJsonLdOffer p1 immobile) immobile))) of
                       Inl err \<Rightarrow> showImmobileFallback p
                     | Inr p' \<Rightarrow> p')))"

text \<open>The number of elements of the document with a given id.\<close>

definition count_id :: "string \<Rightarrow> page \<Rightarrow> nat" where
  "count_id i p = length (filter (\<lambda>x. el_id x = i) (doc_head p @ doc_body p))"

text \<open>A detail page as served, for the examples: no structured-data block yet.\<close>

definition sample_page :: page where
  "sample_page = \<lparr>location_href = ''https://agenzia.example/immobile.html?id=7'',
     location_origin = ''https://agenzia.example'', location_pathname = ''/immobile.html'',
     query_id = Some ''7'', doc_title = ''Immobile'', meta_description = Some [],
     og_title = None, og_description = None, doc_head = [], doc_body = [],
     detail_wrap = Some \<lparr>detail_display = ''none'', detail_gallery = Some None, detail_sections = None\<rparr>,
     not_found_display = Some ''none''\<rparr>"

section \<open>Properties of the sort of arrays\<close>

lemma sort_insert_mset:
  "sort_insert cmp x ys = Inr zs \<Longrightarrow> mset zs = add_mset x (mset ys)"
proof (induction ys arbitrary: zs)
  case Nil
  then show ?case by auto
next
  case (Cons y ys)
  show ?case
  proof (cases "cmp x y")
    case (Inl e)
    with Cons.prems show ?thesis by simp
  next
    case (Inr v)
    show ?thesis
    proof (cases "sort_compare v \<le> 0")
      case True
      with Inr Cons.prems show ?thesis by auto
    next
      case False
      show ?thesis
      proof (cases "sort_insert cmp x ys")
        case (Inl e)
        with Inr False Cons.prems show ?thesis by simp
      next
        case r: (Inr zs')
        with Inr False Cons.prems have "zs = y # zs'" by simp
        moreover have "mset zs' = add_mset x (mset ys)" using Cons.IH [OF r] .
        ultimately show ?thesis by simp
      qed
    qed
  qed
qed

lemma sort_insert_set: "sort_insert cmp x ys = Inr zs \<Longrightarrow> set zs = insert x (set ys)"
proof -
  assume "sort_insert cmp x ys = Inr zs"
  then have "set_mset (mset zs) = set_mset (add_mset x (mset ys))"
    by (simp only: sort_insert_mset)
  then show ?thesis by simp
qed

lemma Array_sort_mset: "Array_sort cmp xs = Inr ys \<Longrightarrow> mset ys = mset xs"
proof (induction xs arbitrary: ys)
  case Nil
  then show ?case by simp
next
  case (Cons x xs)
  show ?case
  proof (cases "Array_sort cmp xs")
    case (Inl e)
    with Cons.prems show ?thesis by simp
  next
    case (Inr ws)
    with Cons.prems have "sort_insert cmp x ws = Inr ys" by simp
    then have "mset ys = add_mset x (mset ws)" by (rule sort_insert_mset)
    with Cons.IH [OF Inr] show ?thesis by simp
  qed
qed

lemma Array_sort_set: "Array_sort cmp xs = Inr ys \<Longrightarrow> set ys = set xs"
proof -
  assume "Array_sort cmp xs = Inr ys"
  then have "set_mset (mset ys) = set_mset (mset xs)"
    by (simp only: Array_sort_mset)
  then show ?thesis by simp
qed

lemma sort_insert_returns:
  "\<forall>y\<in>set ys. \<exists>v. cmp x y = Inr v \<Longrightarrow> \<exists>zs. sort_insert cmp x ys = Inr zs"
proof (induction ys)
  case Nil
  show ?case by simp
next
  case (Cons y ys)
  then obtain v where v: "cmp x y = Inr v" by auto
  from Cons obtain zs where zs: "sort_insert cmp x ys = Inr zs" by auto
  show ?case using v zs by simp
qed

lemma Array_sort_returns:
  "\<forall>x\<in>set xs. \<forall>y\<in>set xs. \<exists>v. cmp x y = Inr v \<Longrightarrow> \<exists>ys. Array_sort cmp xs = Inr ys"
proof (induction xs)
  case Nil
  show ?case by simp
next
  case (Cons x xs)
  then obtain ys where ys: "Array_sort cmp xs = Inr ys" by auto
  have "set ys = set xs" using ys by (rule Array_sort_set)
  with Cons.prems have "\<forall>y\<in>set ys. \<exists>v. cmp x y = Inr v" by simp
  then have "\<exists>zs. sort_insert cmp x ys = Inr zs" by (rule sort_insert_returns)
  with ys show ?case by simp
qed

lemma sort_insert_step_le:
  "cmp_le cmp x y \<Longrightarrow> sort_insert cmp x (y # ys) = Inr (x # y # ys)"
  by (cases "cmp x y") (simp_all add: cmp_le_def)

lemma sort_insert_step_gt:
  assumes "\<not> cmp_le cmp x y" and "sort_insert cmp x (y # ys) = Inr zs"
  shows "\<exists>zs'. sort_insert cmp x ys = Inr zs' \<and> zs = y # zs'"
proof (cases "cmp x y")
  case (Inl e)
  with assms(2) show ?thesis by simp
next
  case (Inr v)
  with assms(1) have gt: "\<not> sort_compare v \<le> 0" by (simp add: cmp_le_def)
  show ?thesis
  proof (cases "sort_insert cmp x ys")
    case (Inl e)
    with Inr gt assms(2) show ?thesis by simp
  next
    case r: (Inr zs')
    with Inr gt assms(2) show ?thesis by simp
  qed
qed

lemma sort_insert_filter:
  assumes "sort_insert cmp x ys = Inr zs"
    and "P x \<Longrightarrow> \<forall>y\<in>set ys. P y \<longrightarrow> cmp_le cmp x y"
  shows "filter P zs = filter P (x # ys)"
  using assms
proof (induction ys arbitrary: zs)
  case Nil
  then show ?case by auto
next
  case (Cons y ys)
  show ?case
  proof (cases "cmp_le cmp x y")
    case True
    then have "zs = x # y # ys" using Cons.prems(1) sort_insert_step_le [OF True, of ys] by simp
    then show ?thesis by simp
  next
    case False
    then obtain zs' where zs': "sort_insert cmp x ys = Inr zs'" "zs = y # zs'"
      using sort_insert_step_gt [OF False Cons.prems(1)] by blast
    have notboth: "\<not> (P x \<and> P y)"
      using Cons.prems(2) False by auto
    have "P x \<Longrightarrow> \<forall>y\<in>set ys. P y \<longrightarrow> cmp_le cmp x y" using Cons.prems(2) by simp
    then have "filter P zs' = filter P (x # ys)"
      by (rule Cons.IH [OF zs'(1)])
    with zs'(2) notboth show ?thesis by auto
  qed
qed

lemma Array_sort_split:
  assumes "Array_sort cmp (x # xs) = Inr ys"
  shows "\<exists>ws. Array_sort cmp xs = Inr ws \<and> sort_insert cmp x ws = Inr ys"
  using assms by (cases "Array_sort cmp xs") simp_all

lemma Array_sort_filter:
  assumes "Array_sort cmp xs = Inr ys"
    and "\<forall>x\<in>set xs. \<forall>y\<in>set xs. P x \<and> P y \<longrightarrow> cmp_le cmp x y"
  shows "filter P ys = filter P xs"
  using assms
proof (induction xs arbitrary: ys)
  case Nil
  then show ?case by simp
next
  case (Cons x xs)
  from Array_sort_split [OF Cons.prems(1)]
  obtain ws where ws: "Array_sort cmp xs = Inr ws" "sort_insert cmp x ws = Inr ys" by blast
  have set_ws: "set ws = set xs" using ws(1) by (rule Array_sort_set)
  have "\<forall>x\<in>set xs. \<forall>y\<in>set xs. P x \<and> P y \<longrightarrow> cmp_le cmp x y" using Cons.prems(2) by simp
  then have 1: "filter P ws = filter P xs" by (rule Cons.IH [OF ws(1)])
  have "P x \<Longrightarrow> \<forall>y\<in>set ws. P y \<longrightarrow> cmp_le cmp x y" using Cons.prems(2) set_ws by simp
  then have "filter P ys = filter P (x # ws)" by (rule sort_insert_filter [OF ws(2)])
  with 1 show ?case by simp
qed

lemma sort_insert_sorted:
  assumes ins: "sort_insert cmp x ys = Inr zs"
    and sorted: "sorted_wrt (cmp_le cmp) ys"
    and total: "\<And>y. y \<in> set ys \<Longrightarrow> \<not> cmp_le cmp x y \<Longrightarrow> cmp_le cmp y x"
    and trans: "\<And>y z. y \<in> set ys \<Longrightarrow> z \<in> set ys \<Longrightarrow> cmp_le cmp x y \<Longrightarrow> cmp_le cmp y z \<Longrightarrow> cmp_le cmp x z"
  shows "sorted_wrt (cmp_le cmp) zs"
  using ins sorted total trans
proof (induction ys arbitrary: zs)
  case Nil
  then show ?case by auto
next
  case (Cons y ys)
  have sorted_ys: "sorted_wrt (cmp_le cmp) ys" and y_le: "\<forall>z\<in>set ys. cmp_le cmp y z"
    using Cons.prems(2) by simp_all
  show ?case
  proof (cases "cmp_le cmp x y")
    case True
    then have zs: "zs = x # y # ys" using Cons.prems(1) sort_insert_step_le [OF True, of ys] by simp
    have "\<forall>z\<in>set ys. cmp_le cmp x z"
    proof
      fix z assume z: "z \<in> set ys"
      then have yz: "cmp_le cmp y z" using y_le by simp
      show "cmp_le cmp x z"
        by (rule Cons.prems(4) [of y z]) (use z True yz in simp_all)
    qed
    with zs True sorted_ys y_le show ?thesis by simp
  next
    case False
    then obtain zs' where zs': "sort_insert cmp x ys = Inr zs'" "zs = y # zs'"
      using sort_insert_step_gt [OF False Cons.prems(1)] by blast
    have "sorted_wrt (cmp_le cmp) zs'"
    proof (rule Cons.IH [OF zs'(1) sorted_ys])
      fix z assume "z \<in> set ys" "\<not> cmp_le cmp x z"
      then show "cmp_le cmp z x" using Cons.prems(3) [of z] by simp
    next
      fix u z assume "u \<in> set ys" "z \<in> set ys" "cmp_le cmp x u" "cmp_le cmp u z"
      then show "cmp_le cmp x z" using Cons.prems(4) [of u z] by simp
    qed
    moreover have "set zs' = insert x (set ys)"
      using zs'(1) by (rule sort_insert_set)
    moreover have "cmp_le cmp y x" using False Cons.prems(3) [of y] by simp
    ultimately show ?thesis using zs'(2) y_le by simp
  qed
qed

lemma Array_sort_sorted:
  assumes srt: "Array_sort cmp xs = Inr ys"
    and total: "\<And>x y. x \<in> set xs \<Longrightarrow> y \<in> set xs \<Longrightarrow> \<not> cmp_le cmp x y \<Longrightarrow> cmp_le cmp y x"
    and trans: "\<And>x y z. x \<in> set xs \<Longrightarrow> y \<in> set xs \<Longrightarrow> z \<in> set xs \<Longrightarrow>
                  cmp_le cmp x y \<Longrightarrow> cmp_le cmp y z \<Longrightarrow> cmp_le cmp x z"
  shows "sorted_wrt (cmp_le cmp) ys"
  using srt total trans
proof (induction xs arbitrary: ys)
  case Nil
  from Nil.prems(1) have "ys = []" by simp
  then show ?case by simp
next
  case (Cons x xs)
  from Array_sort_split [OF Cons.prems(1)]
  obtain ws where ws: "Array_sort cmp xs = Inr ws" "sort_insert cmp x ws = Inr ys" by blast
  have set_ws: "set ws = set xs" using ws(1) by (rule Array_sort_set)
  have sorted_ws: "sorted_wrt (cmp_le cmp) ws"
  proof (rule Cons.IH [OF ws(1)])
    fix a b assume a: "a \<in> set xs" and b: "b \<in> set xs" and n: "\<not> cmp_le cmp a b"
    show "cmp_le cmp b a"
      by (rule Cons.prems(2) [of a b]) (use a b n in simp_all)
  next
    fix a b d assume a: "a \<in> set xs" and b: "b \<in> set xs" and d: "d \<in> set xs"
      and ab: "cmp_le cmp a b" and bd: "cmp_le cmp b d"
    show "cmp_le cmp a d"
      by (rule Cons.prems(3) [of a b d]) (use a b d ab bd in simp_all)
  qed
  show ?case
  proof (rule sort_insert_sorted [OF ws(2) sorted_ws])
    fix y assume y: "y \<in> set ws" and n: "\<not> cmp_le cmp x y"
    show "cmp_le cmp y x"
      by (rule Cons.prems(2) [of x y]) (use y n set_ws in simp_all)
  next
    fix y z assume y: "y \<in> set ws" and z: "z \<in> set ws" and xy: "cmp_le cmp x y" and yz: "cmp_le cmp y z"
    show "cmp_le cmp x z"
      by (rule Cons.prems(3) [of x y z]) (use y z xy yz set_ws in simp_all)
  qed
qed

lemma consistent_refl:
  assumes "consistent_comparator c S" "a \<in> S"
  shows "c a a = 0"
proof -
  from assms(1) have "\<forall>a\<in>S. c a a = 0"
    unfolding consistent_comparator_def by (elim conjE)
  from this [rule_format, OF assms(2)] show ?thesis .
qed

lemma consistent_sym:
  assumes "consistent_comparator c S" "a \<in> S" "b \<in> S" "c a b = 0"
  shows "c b a = 0"
proof -
  from assms(1) have "\<forall>a\<in>S. \<forall>b\<in>S. c a b = 0 \<longrightarrow> c b a = 0"
    unfolding consistent_comparator_def by (elim conjE)
  from this [rule_format, OF assms(2) assms(3) assms(4)] show ?thesis .
qed

lemma consistent_eq_trans:
  assumes "consistent_comparator c S" "a \<in> S" "b \<in> S" "d \<in> S" "c a b = 0" "c b d = 0"
  shows "c a d = 0"
proof -
  from assms(1) have "\<forall>a\<in>S. \<forall>b\<in>S. \<forall>d\<in>S. c a b = 0 \<and> c b d = 0 \<longrightarrow> c a d = 0"
    unfolding consistent_comparator_def by (elim conjE)
  from this [rule_format, OF assms(2) assms(3) assms(4)] assms(5,6) show ?thesis by simp
qed

lemma consistent_lt_trans:
  assumes "consistent_comparator c S" "a \<in> S" "b \<in> S" "d \<in> S" "c a b < 0" "c b d < 0"
  shows "c a d < 0"
proof -
  from assms(1) have "\<forall>a\<in>S. \<forall>b\<in>S. \<forall>d\<in>S. c a b < 0 \<and> c b d < 0 \<longrightarrow> c a d < 0"
    unfolding consistent_comparator_def by (elim conjE)
  from this [rule_format, OF assms(2) assms(3) assms(4)] assms(5,6) show ?thesis by simp
qed

lemma consistent_gt_trans:
  assumes "consistent_comparator c S" "a \<in> S" "b \<in> S" "d \<in> S" "c a b > 0" "c b d > 0"
  shows "c a d > 0"
proof -
  from assms(1) have "\<forall>a\<in>S. \<forall>b\<in>S. \<forall>d\<in>S. c a b > 0 \<and> c b d > 0 \<longrightarrow> c a d > 0"
    unfolding consistent_comparator_def by (elim conjE)
  from this [rule_format, OF assms(2) assms(3) assms(4)] assms(5,6) show ?thesis by simp
qed

lemma consistent_antisym:
  assumes cc: "consistent_comparator c S" and mem: "a \<in> S" "b \<in> S" and ab: "c a b > 0"
  shows "c b a < 0"
proof (rule ccontr)
  assume "\<not> c b a < 0"
  then consider "c b a = 0" | "c b a > 0" by linarith
  then show False
  proof cases
    case 1
    have "c a b = 0" by (rule consistent_sym [OF cc mem(2) mem(1) 1])
    with ab show False by simp
  next
    case 2
    have "c a a > 0" by (rule consistent_gt_trans [OF cc mem(1) mem(2) mem(1) ab 2])
    moreover have "c a a = 0" by (rule consistent_refl [OF cc mem(1)])
    ultimately show False by simp
  qed
qed

lemma consistent_total:
  assumes cc: "consistent_comparator c S" and mem: "a \<in> S" "b \<in> S" and ab: "\<not> c a b \<le> 0"
  shows "c b a \<le> 0"
proof -
  from ab have "c a b > 0" by simp
  then have "c b a < 0" by (rule consistent_antisym [OF cc mem])
  then show ?thesis by simp
qed

lemma consistent_trans_le:
  assumes cc: "consistent_comparator c S" and mem: "a \<in> S" "b \<in> S" "d \<in> S"
    and ab: "c a b \<le> 0" and bd: "c b d \<le> 0"
  shows "c a d \<le> 0"
proof (rule ccontr)
  assume "\<not> c a d \<le> 0"
  then have ad: "c a d > 0" by simp
  have da: "c d a < 0" by (rule consistent_antisym [OF cc mem(1) mem(3) ad])
  consider "c a b < 0" "c b d < 0" | "c a b = 0" "c b d = 0" | "c a b < 0" "c b d = 0" | "c a b = 0" "c b d < 0"
    using ab bd by linarith
  then show False
  proof cases
    case 1
    have "c a d < 0" by (rule consistent_lt_trans [OF cc mem 1])
    with ad show False by simp
  next
    case 2
    have "c a d = 0" by (rule consistent_eq_trans [OF cc mem 2])
    with ad show False by simp
  next
    case 3
    have "c d b < 0" by (rule consistent_lt_trans [OF cc mem(3) mem(1) mem(2) da 3(1)])
    moreover have "c d b = 0" by (rule consistent_sym [OF cc mem(2) mem(3) 3(2)])
    ultimately show False by simp
  next
    case 4
    have "c b a < 0" by (rule consistent_lt_trans [OF cc mem(2) mem(3) mem(1) 4(2) da])
    moreover have "c b a = 0" by (rule consistent_sym [OF cc mem(1) mem(2) 4(1)])
    ultimately show False by simp
  qed
qed

section \<open>Properties of the filter\<close>

lemma below_min_iff:
  "below_min b (prezzo_filtro e) \<longleftrightarrow>
     (case active_bound b of None \<Rightarrow> False | Some m \<Rightarrow> normalized_price e < m)"
  by (auto simp: below_min_def active_bound_def prezzo_filtro_def normalized_price_def
      split: option.splits jsnum.splits jsval.splits)

lemma above_max_iff:
  "above_max b (prezzo_filtro e) \<longleftrightarrow>
     (case active_bound b of None \<Rightarrow> False | Some m \<Rightarrow> m < normalized_price e)"
  by (auto simp: above_max_def js_gt_def active_bound_def prezzo_filtro_def normalized_price_def
      split: option.splits jsnum.splits jsval.splits)

lemma category_match:
  "js_or v (JStr []) = JStr t \<longleftrightarrow> v = JStr t \<or> (t = [] \<and> \<not> truthy v)"
  by (cases v) (auto simp: js_or_def)

lemma filter_callback_iff: "filter_callback fs e = criteria_hold fs e"
  unfolding filter_callback_def criteria_hold_def below_min_iff above_max_iff
  by (auto simp: category_match split: option.splits)

text \<open>
  Claim C1. \<^verbatim>\<open>filterImmobili\<close> keeps exactly the entries for which every active
  criterion holds: the contract, city and category criteria are exact matches (the
  empty string is no constraint) and the two bounds limit the normalized price. On
  the snapshot of Scenario A with the criterion \<^verbatim>\<open>contractType: "rent"\<close> the result is
  the entry with id 2 alone.
\<close>

theorem filterImmobili_criteria:
  "filterImmobili immobili fs = filter (criteria_hold fs) immobili
   \<and> filterImmobili [entry (JNum 1) (JNum 100000) (JStr ''sale'') (JStr ''Milano''),
                      entry (JNum 2) (JNum 50000) (JStr ''rent'') (JStr ''Roma'')]
        (no_filters\<lparr>contratto := ''rent''\<rparr>)
      = [entry (JNum 2) (JNum 50000) (JStr ''rent'') (JStr ''Roma'')]"
proof -
  have "filter_callback fs = criteria_hold fs"
    by (rule ext) (rule filter_callback_iff)
  then have general: "filterImmobili immobili fs = filter (criteria_hold fs) immobili"
    by (simp add: filterImmobili_def)
  have scenario: "filterImmobili [entry (JNum 1) (JNum 100000) (JStr ''sale'') (JStr ''Milano''),
                     entry (JNum 2) (JNum 50000) (JStr ''rent'') (JStr ''Roma'')]
       (no_filters\<lparr>contratto := ''rent''\<rparr>)
     = [entry (JNum 2) (JNum 50000) (JStr ''rent'') (JStr ''Roma'')]"
    by (simp add: filterImmobili_def filter_callback_def below_min_def above_max_def
        entry_def no_filters_def)
  from general scenario show ?thesis by simp
qed

theorem filterImmobili_criteria_witness:
  "filterImmobili [entry (JNum 1) (JNum 100000) (JStr ''sale'') (JStr ''Milano''),
                   entry (JNum 2) (JNum 50000) (JStr ''rent'') (JStr ''Roma'')]
     (no_filters\<lparr>prezzoMin := Some (Fin 60000), prezzoMax := Some NaN, localita := ''Milano''\<rparr>)
   = [entry (JNum 1) (JNum 100000) (JStr ''sale'') (JStr ''Milano'')]"
  using filterImmobili_criteria
    [of "[entry (JNum 1) (JNum 100000) (JStr ''sale'') (JStr ''Milano''),
          entry (JNum 2) (JNum 50000) (JStr ''rent'') (JStr ''Roma'')]"
        "no_filters\<lparr>prezzoMin := Some (Fin 60000), prezzoMax := Some NaN, localita := ''Milano''\<rparr>"]
  by (simp add: criteria_hold_def active_bound_def normalized_price_def entry_def no_filters_def)

lemma below_min_NaN: "below_min (Some NaN) p = below_min None p"
  by (simp add: below_min_def)

lemma above_max_NaN: "above_max (Some NaN) p = above_max None p"
  by (simp add: above_max_def)

lemma prezzo_filtro_not_number:
  "\<not> is_number (prezzo e) \<Longrightarrow> prezzo_filtro e = Fin 0"
  by (cases "prezzo e") (simp_all add: prezzo_filtro_def)

lemma filter_callback_min_NaN:
  "prezzoMin fs = Some NaN \<Longrightarrow> filter_callback fs = filter_callback (fs\<lparr>prezzoMin := None\<rparr>)"
  by (rule ext) (simp add: filter_callback_def below_min_NaN)

lemma filter_callback_max_NaN:
  "prezzoMax fs = Some NaN \<Longrightarrow> filter_callback fs = filter_callback (fs\<lparr>prezzoMax := None\<rparr>)"
  by (rule ext) (simp add: filter_callback_def above_max_NaN)

lemma filter_callback_not_number:
  "\<not> is_number (prezzo e) \<Longrightarrow> filter_callback fs e = filter_callback fs (e\<lparr>prezzo := JNum 0\<rparr>)"
  by (simp add: filter_callback_def prezzo_filtro_not_number) (simp add: prezzo_filtro_def)

text \<open>
  Claim C2, as stated, fails: an entry whose price is not a number is not exempt from
  the bounds. Its price counts as 0, so the entry below (price \<^verbatim>\<open>"su richiesta"\<close>) is
  removed by the bound \<^verbatim>\<open>priceMin = 100\<close>, though it passes when the bounds are absent.
\<close>

theorem non_numeric_price_excluded_by_min:
  "\<not> is_number (prezzo (entry (JNum 3) (JStr ''su richiesta'') (JStr ''sale'') (JStr ''Roma'')))
   \<and> filterImmobili [entry (JNum 3) (JStr ''su richiesta'') (JStr ''sale'') (JStr ''Roma'')]
        (no_filters\<lparr>prezzoMin := Some (Fin 100)\<rparr>) = []
   \<and> filterImmobili [entry (JNum 3) (JStr ''su richiesta'') (JStr ''sale'') (JStr ''Roma'')]
        no_filters
      = [entry (JNum 3) (JStr ''su richiesta'') (JStr ''sale'') (JStr ''Roma'')]"
  by (simp add: filterImmobili_def filter_callback_def below_min_def above_max_def
      prezzo_filtro_def entry_def no_filters_def)

text \<open>
  Claim C2, amended. A bound that failed to parse (NaN) excludes no entry: the result
  of \<^verbatim>\<open>filterImmobili\<close> is the one obtained with that bound absent. An entry whose price
  is not a number is filtered exactly as the same entry with price 0, so the bounds
  still apply to it.
\<close>

theorem unparsed_bound_is_absent:
  "(prezzoMin fs = Some NaN \<longrightarrow>
      filterImmobili immobili fs = filterImmobili immobili (fs\<lparr>prezzoMin := None\<rparr>))
   \<and> (prezzoMax fs = Some NaN \<longrightarrow>
      filterImmobili immobili fs = filterImmobili immobili (fs\<lparr>prezzoMax := None\<rparr>))
   \<and> (\<not> is_number (prezzo e) \<longrightarrow>
      filter_callback fs e = filter_callback fs (e\<lparr>prezzo := JNum 0\<rparr>))"
  using filter_callback_min_NaN [of fs] filter_callback_max_NaN [of fs]
    filter_callback_not_number [of e fs]
  by (simp add: filterImmobili_def)

lemma parse_bounds_example:
  "prezzoMin (getFiltersFromForm (Some (form_with_bounds ''abc'' '' n/d ''))) = Some NaN"
  "prezzoMax (getFiltersFromForm (Some (form_with_bounds ''abc'' '' n/d ''))) = Some NaN"
  by (simp_all add: getFiltersFromForm_def form_with_bounds_def bound_text_def bound_of_text_def
      trim_def parseInt_def is_space_def is_digit_def Let_def)

theorem unparsed_bound_is_absent_witness:
  "prezzoMin (getFiltersFromForm (Some (form_with_bounds ''abc'' '' n/d ''))) = Some NaN
   \<and> prezzoMax (getFiltersFromForm (Some (form_with_bounds ''abc'' '' n/d ''))) = Some NaN
   \<and> filterImmobili [entry (JNum 1) (JNum 100000) (JStr ''sale'') (JStr ''Milano'')]
        (getFiltersFromForm (Some (form_with_bounds ''abc'' '' n/d '')))
      = filterImmobili [entry (JNum 1) (JNum 100000) (JStr ''sale'') (JStr ''Milano'')]
          ((getFiltersFromForm (Some (form_with_bounds ''abc'' '' n/d '')))\<lparr>prezzoMin := None\<rparr>)
   \<and> filterImmobili [entry (JNum 1) (JNum 100000) (JStr ''sale'') (JStr ''Milano'')]
        (getFiltersFromForm (Some (form_with_bounds ''abc'' '' n/d '')))
      = filterImmobili [entry (JNum 1) (JNum 100000) (JStr ''sale'') (JStr ''Milano'')]
          ((getFiltersFromForm (Some (form_with_bounds ''abc'' '' n/d '')))\<lparr>prezzoMax := None\<rparr>)
   \<and> \<not> is_number (prezzo (entry (JNum 3) JNull (JStr ''sale'') (JStr ''Roma'')))
   \<and> filter_callback (no_filters\<lparr>prezzoMax := Some (Fin 5)\<rparr>)
        (entry (JNum 3) JNull (JStr ''sale'') (JStr ''Roma''))
      = filter_callback (no_filters\<lparr>prezzoMax := Some (Fin 5)\<rparr>)
          ((entry (JNum 3) JNull (JStr ''sale'') (JStr ''Roma''))\<lparr>prezzo := JNum 0\<rparr>)"
proof -
  have n: "\<not> is_number (prezzo (entry (JNum 3) JNull (JStr ''sale'') (JStr ''Roma'')))"
    by (simp add: entry_def)
  from unparsed_bound_is_absent
    [of "getFiltersFromForm (Some (form_with_bounds ''abc'' '' n/d ''))"
        "[entry (JNum 1) (JNum 100000) (JStr ''sale'') (JStr ''Milano'')]"
        "entry (JNum 3) JNull (JStr ''sale'') (JStr ''Roma'')"]
    unparsed_bound_is_absent
    [of "no_filters\<lparr>prezzoMax := Some (Fin 5)\<rparr>" "[]"
        "entry (JNum 3) JNull (JStr ''sale'') (JStr ''Roma'')"]
    parse_bounds_example n
  show ?thesis by blast
qed

section \<open>Properties of sortImmobili\<close>

lemma cmp_le_crescente:
  "cmp_le (cmp_prezzo_crescente h) a b \<longleftrightarrow>
     sort_compare (js_minus (prezzo_ordine h a) (prezzo_ordine h b)) \<le> 0"
  by (simp add: cmp_le_def cmp_prezzo_crescente_def)

lemma cmp_le_decrescente:
  "cmp_le (cmp_prezzo_decrescente h) a b \<longleftrightarrow>
     sort_compare (js_minus (prezzo_ordine h b) (prezzo_ordine h a)) \<le> 0"
  by (simp add: cmp_le_def cmp_prezzo_decrescente_def)

lemma minus_le_iff_not_gt:
  "\<not> isNaN p \<Longrightarrow> \<not> isNaN q \<Longrightarrow> sort_compare (js_minus p q) \<le> 0 \<longleftrightarrow> \<not> js_gt p q"
  by (cases p; cases q) (auto simp: js_gt_def)

lemma minus_le_iff_not_lt:
  "\<not> isNaN p \<Longrightarrow> \<not> isNaN q \<Longrightarrow> sort_compare (js_minus q p) \<le> 0 \<longleftrightarrow> \<not> js_lt p q"
  by (cases p; cases q) auto

lemma minus_le_total:
  "\<not> sort_compare (js_minus p q) \<le> 0 \<Longrightarrow> sort_compare (js_minus q p) \<le> 0"
  by (cases p; cases q) auto

lemma minus_le_trans:
  "\<not> isNaN q \<Longrightarrow> sort_compare (js_minus p q) \<le> 0 \<Longrightarrow> sort_compare (js_minus q r) \<le> 0
   \<Longrightarrow> sort_compare (js_minus p r) \<le> 0"
  by (cases p; cases q; cases r) auto

lemma minus_self: "sort_compare (js_minus p p) \<le> 0"
  by (cases p) auto

lemma cmp_le_recente:
  "data_ordine b = JStr s \<Longrightarrow>
   cmp_le (cmp_recente h) a b \<longleftrightarrow> localeCompare h s (ToString (data_ordine a)) \<le> 0"
  by (simp add: cmp_le_def cmp_recente_def)

lemma is_string_iff: "is_string v \<longleftrightarrow> v = JStr (ToString v)"
  by (cases v) auto

lemma sample_collation_consistent: "consistent_comparator (localeCompare sample_host) S"
  unfolding consistent_comparator_def sample_host_def
  by (auto split: if_splits)

lemma sort_crescente:
  assumes ok: "sortable_prices h xs"
  shows "\<exists>ys. Array_sort (cmp_prezzo_crescente h) xs = Inr ys \<and> mset ys = mset xs
     \<and> sorted_wrt (\<lambda>a b. \<not> js_gt (prezzo_ordine h a) (prezzo_ordine h b)) ys
     \<and> (\<forall>k. filter (\<lambda>e. prezzo_ordine h e = k) ys = filter (\<lambda>e. prezzo_ordine h e = k) xs)"
proof -
  let ?cmp = "cmp_prezzo_crescente h"
  have fin: "\<And>e. e \<in> set xs \<Longrightarrow> \<not> isNaN (prezzo_ordine h e)"
    using ok by (simp add: sortable_prices_def list_all_iff)
  have "\<forall>x\<in>set xs. \<forall>y\<in>set xs. \<exists>v. ?cmp x y = Inr v"
    by (simp add: cmp_prezzo_crescente_def)
  then obtain ys where ys: "Array_sort ?cmp xs = Inr ys"
    using Array_sort_returns [of xs ?cmp] by blast
  have m: "mset ys = mset xs" using ys by (rule Array_sort_mset)
  have s: "set ys = set xs" using ys by (rule Array_sort_set)
  have "sorted_wrt (cmp_le ?cmp) ys"
  proof (rule Array_sort_sorted [OF ys])
    fix x y assume "\<not> cmp_le ?cmp x y"
    then show "cmp_le ?cmp y x"
      unfolding cmp_le_crescente by (rule minus_le_total)
  next
    fix x y z assume "y \<in> set xs" "cmp_le ?cmp x y" "cmp_le ?cmp y z"
    then show "cmp_le ?cmp x z"
      unfolding cmp_le_crescente using minus_le_trans [OF fin] by blast
  qed
  then have sorted: "sorted_wrt (\<lambda>a b. \<not> js_gt (prezzo_ordine h a) (prezzo_ordine h b)) ys"
  proof (rule sorted_wrt_mono_rel [rotated])
    fix a b assume "a \<in> set ys" "b \<in> set ys" "cmp_le ?cmp a b"
    then show "\<not> js_gt (prezzo_ordine h a) (prezzo_ordine h b)"
      unfolding cmp_le_crescente using minus_le_iff_not_gt fin s by blast
  qed
  have stable: "\<forall>k. filter (\<lambda>e. prezzo_ordine h e = k) ys = filter (\<lambda>e. prezzo_ordine h e = k) xs"
  proof
    fix k
    show "filter (\<lambda>e. prezzo_ordine h e = k) ys = filter (\<lambda>e. prezzo_ordine h e = k) xs"
    proof (rule Array_sort_filter [OF ys], intro ballI impI)
      fix x y assume "prezzo_ordine h x = k \<and> prezzo_ordine h y = k"
      then show "cmp_le ?cmp x y"
        unfolding cmp_le_crescente using minus_self [of k] by simp
    qed
  qed
  from ys m sorted stable show ?thesis by blast
qed

lemma sort_decrescente:
  assumes ok: "sortable_prices h xs"
  shows "\<exists>ys. Array_sort (cmp_prezzo_decrescente h) xs = Inr ys \<and> mset ys = mset xs
     \<and> sorted_wrt (\<lambda>a b. \<not> js_lt (prezzo_ordine h a) (prezzo_ordine h b)) ys
     \<and> (\<forall>k. filter (\<lambda>e. prezzo_ordine h e = k) ys = filter (\<lambda>e. prezzo_ordine h e = k) xs)"
proof -
  let ?cmp = "cmp_prezzo_decrescente h"
  have fin: "\<And>e. e \<in> set xs \<Longrightarrow> \<not> isNaN (prezzo_ordine h e)"
    using ok by (simp add: sortable_prices_def list_all_iff)
  have "\<forall>x\<in>set xs. \<forall>y\<in>set xs. \<exists>v. ?cmp x y = Inr v"
    by (simp add: cmp_prezzo_decrescente_def)
  then obtain ys where ys: "Array_sort ?cmp xs = Inr ys"
    using Array_sort_returns [of xs ?cmp] by blast
  have m: "mset ys = mset xs" using ys by (rule Array_sort_mset)
  have s: "set ys = set xs" using ys by (rule Array_sort_set)
  have "sorted_wrt (cmp_le ?cmp) ys"
  proof (rule Array_sort_sorted [OF ys])
    fix x y assume "\<not> cmp_le ?cmp x y"
    then show "cmp_le ?cmp y x"
      unfolding cmp_le_decrescente by (rule minus_le_total)
  next
    fix x y z assume "y \<in> set xs" "cmp_le ?cmp x y" "cmp_le ?cmp y z"
    then show "cmp_le ?cmp x z"
      unfolding cmp_le_decrescente using minus_le_trans [OF fin] by blast
  qed
  then have sorted: "sorted_wrt (\<lambda>a b. \<not> js_lt (prezzo_ordine h a) (prezzo_ordine h b)) ys"
  proof (rule sorted_wrt_mono_rel [rotated])
    fix a b assume "a \<in> set ys" "b \<in> set ys" "cmp_le ?cmp a b"
    then show "\<not> js_lt (prezzo_ordine h a) (prezzo_ordine h b)"
      unfolding cmp_le_decrescente using minus_le_iff_not_lt fin s by blast
  qed
  have stable: "\<forall>k. filter (\<lambda>e. prezzo_ordine h e = k) ys = filter (\<lambda>e. prezzo_ordine h e = k) xs"
  proof
    fix k
    show "filter (\<lambda>e. prezzo_ordine h e = k) ys = filter (\<lambda>e. prezzo_ordine h e = k) xs"
    proof (rule Array_sort_filter [OF ys], intro ballI impI)
      fix x y assume "prezzo_ordine h x = k \<and> prezzo_ordine h y = k"
      then show "cmp_le ?cmp x y"
        unfolding cmp_le_decrescente using minus_self [of k] by simp
    qed
  qed
  from ys m sorted stable show ?thesis by blast
qed

lemma sort_recente:
  assumes ok: "sortable_dates h xs"
  shows "\<exists>ys. Array_sort (cmp_recente h) xs = Inr ys \<and> mset ys = mset xs
     \<and> sorted_wrt (\<lambda>a b. localeCompare h (ToString (data_ordine b)) (ToString (data_ordine a)) \<le> 0) ys
     \<and> (\<forall>k. filter (\<lambda>e. data_ordine e = k) ys = filter (\<lambda>e. data_ordine e = k) xs)"
proof -
  let ?cmp = "cmp_recente h"
  let ?t = "\<lambda>e. ToString (data_ordine e)"
  let ?S = "set (map ?t xs)"
  have str: "\<And>e. e \<in> set xs \<Longrightarrow> data_ordine e = JStr (?t e)"
    using ok by (simp add: sortable_dates_def list_all_iff is_string_iff [symmetric])
  have cc: "consistent_comparator (localeCompare h) ?S"
    using ok by (simp add: sortable_dates_def)
  have mem: "\<And>e. e \<in> set xs \<Longrightarrow> ?t e \<in> ?S" by simp
  have le: "\<And>a b. b \<in> set xs \<Longrightarrow> cmp_le ?cmp a b \<longleftrightarrow> localeCompare h (?t b) (?t a) \<le> 0"
    by (rule cmp_le_recente) (rule str)
  have "\<forall>x\<in>set xs. \<forall>y\<in>set xs. \<exists>v. ?cmp x y = Inr v"
  proof (intro ballI)
    fix x y assume "y \<in> set xs"
    then have "data_ordine y = JStr (?t y)" by (rule str)
    then obtain u where "data_ordine y = JStr u" by blast
    then show "\<exists>v. ?cmp x y = Inr v" by (simp add: cmp_recente_def)
  qed
  then obtain ys where ys: "Array_sort ?cmp xs = Inr ys"
    using Array_sort_returns [of xs ?cmp] by blast
  have m: "mset ys = mset xs" using ys by (rule Array_sort_mset)
  have s: "set ys = set xs" using ys by (rule Array_sort_set)
  have "sorted_wrt (cmp_le ?cmp) ys"
  proof (rule Array_sort_sorted [OF ys])
    fix x y assume x: "x \<in> set xs" and y: "y \<in> set xs" and n: "\<not> cmp_le ?cmp x y"
    from n have "\<not> localeCompare h (?t y) (?t x) \<le> 0" using le [OF y] by simp
    then have "localeCompare h (?t x) (?t y) \<le> 0"
      by (rule consistent_total [OF cc mem [OF y] mem [OF x]])
    then show "cmp_le ?cmp y x" using le [OF x] by simp
  next
    fix x y z assume x: "x \<in> set xs" and y: "y \<in> set xs" and z: "z \<in> set xs"
      and xy: "cmp_le ?cmp x y" and yz: "cmp_le ?cmp y z"
    from xy have 1: "localeCompare h (?t y) (?t x) \<le> 0" using le [OF y] by simp
    from yz have 2: "localeCompare h (?t z) (?t y) \<le> 0" using le [OF z] by simp
    have "localeCompare h (?t z) (?t x) \<le> 0"
      by (rule consistent_trans_le [OF cc mem [OF z] mem [OF y] mem [OF x] 2 1])
    then show "cmp_le ?cmp x z" using le [OF z] by simp
  qed
  then have sorted: "sorted_wrt (\<lambda>a b. localeCompare h (?t b) (?t a) \<le> 0) ys"
  proof (rule sorted_wrt_mono_rel [rotated])
    fix a b assume "a \<in> set ys" "b \<in> set ys" "cmp_le ?cmp a b"
    then show "localeCompare h (?t b) (?t a) \<le> 0" using le [of b a] s by simp
  qed
  have stable: "\<forall>k. filter (\<lambda>e. data_ordine e = k) ys = filter (\<lambda>e. data_ordine e = k) xs"
  proof
    fix k
    show "filter (\<lambda>e. data_ordine e = k) ys = filter (\<lambda>e. data_ordine e = k) xs"
    proof (rule Array_sort_filter [OF ys], intro ballI impI)
      fix x y assume x: "x \<in> set xs" and y: "y \<in> set xs"
        and k: "data_ordine x = k \<and> data_ordine y = k"
      have "localeCompare h (?t y) (?t y) = 0"
        by (rule consistent_refl [OF cc mem [OF y]])
      moreover have "?t x = ?t y" using k by simp
      ultimately show "cmp_le ?cmp x y" using le [OF y, of x] by simp
    qed
  qed
  from ys m sorted stable show ?thesis by blast
qed

lemma sortImmobili_modes:
  "sortImmobili h xs ''prezzo-crescente'' = Array_sort (cmp_prezzo_crescente h) xs"
  "sortImmobili h xs ''prezzo-decrescente'' = Array_sort (cmp_prezzo_decrescente h) xs"
  "ord \<noteq> ''prezzo-crescente'' \<Longrightarrow> ord \<noteq> ''prezzo-decrescente'' \<Longrightarrow>
     sortImmobili h xs ord = Array_sort (cmp_recente h) xs"
  by (simp_all add: sortImmobili_def)

text \<open>
  Claim C3, as stated, fails: two entries with equal normalized prices need not keep
  their order. The price modes compare the operand \<^verbatim>\<open>(a.prezzo || 0)\<close> as the
  subtraction converts it, not the normalized price. Below, the first entry has the
  text price \<^verbatim>\<open>"5"\<close> and the second has no price: both normalized prices are 0, the
  operands are 5 and 0, and the ascending sort exchanges the two entries.
\<close>

theorem equal_normalized_prices_reordered:
  "normalized_price (entry (JNum 1) (JStr ''5'') JUndefined JUndefined) = 0
   \<and> normalized_price (entry (JNum 2) JUndefined JUndefined JUndefined) = 0
   \<and> sortImmobili sample_host
        [entry (JNum 1) (JStr ''5'') JUndefined JUndefined,
         entry (JNum 2) JUndefined JUndefined JUndefined] ''prezzo-crescente''
      = Inr [entry (JNum 2) JUndefined JUndefined JUndefined,
             entry (JNum 1) (JStr ''5'') JUndefined JUndefined]"
  by (simp add: normalized_price_def sortImmobili_def cmp_prezzo_crescente_def prezzo_ordine_def
      js_or_def entry_def sample_host_def is_digit_def digits_value_def)

text \<open>
  Claim C3, amended. On an input on which the mode's comparator is consistent,
  \<^verbatim>\<open>sortImmobili\<close> is stable in each of the three modes with respect to the operand
  the comparator reads: for every value \<open>k\<close> of the price operand (price modes) or of
  the date operand (default mode; the empty string for every absent date), the
  entries with operand \<open>k\<close> stand in the result in the order they had in the input.
\<close>

theorem sortImmobili_stable:
  assumes "sortable h ord immobili"
  shows "\<exists>sorted. sortImmobili h immobili ord = Inr sorted \<and>
     (if ord = ''prezzo-crescente'' \<or> ord = ''prezzo-decrescente''
      then \<forall>k. filter (\<lambda>e. prezzo_ordine h e = k) sorted
                 = filter (\<lambda>e. prezzo_ordine h e = k) immobili
      else \<forall>k. filter (\<lambda>e. data_ordine e = k) sorted
                 = filter (\<lambda>e. data_ordine e = k) immobili)"
proof -
  consider (asc) "ord = ''prezzo-crescente''" | (desc) "ord = ''prezzo-decrescente''"
    | (date) "ord \<noteq> ''prezzo-crescente''" "ord \<noteq> ''prezzo-decrescente''" by blast
  then show ?thesis
  proof cases
    case asc
    with assms have "sortable_prices h immobili" by (simp add: sortable_def)
    from sort_crescente [OF this] asc show ?thesis
      by (simp add: sortImmobili_modes(1)) blast
  next
    case desc
    with assms have "sortable_prices h immobili" by (simp add: sortable_def)
    from sort_decrescente [OF this] desc show ?thesis
      by (simp add: sortImmobili_modes(2)) blast
  next
    case date
    with assms have "sortable_dates h immobili" by (simp add: sortable_def)
    from sort_recente [OF this] date show ?thesis
      by (simp add: sortImmobili_modes(3)) blast
  qed
qed

theorem sortImmobili_stable_witness:
  "sortable sample_host ''prezzo-crescente''
     [entry (JNum 1) (JNum 5) JUndefined JUndefined, entry (JNum 2) (JNum 3) JUndefined JUndefined,
      entry (JNum 3) (JNum 5) JUndefined JUndefined]
   \<and> (\<exists>sorted. sortImmobili sample_host
         [entry (JNum 1) (JNum 5) JUndefined JUndefined, entry (JNum 2) (JNum 3) JUndefined JUndefined,
          entry (JNum 3) (JNum 5) JUndefined JUndefined] ''prezzo-crescente'' = Inr sorted
       \<and> filter (\<lambda>e. prezzo_ordine sample_host e = Fin 5) sorted
           = [entry (JNum 1) (JNum 5) JUndefined JUndefined, entry (JNum 3) (JNum 5) JUndefined JUndefined])
   \<and> sortable sample_host ''recente''
     [entry (JNum 1) JUndefined JUndefined JUndefined,
      (entry (JNum 2) JUndefined JUndefined JUndefined)\<lparr>dataInserimento := JStr ''2024-05-01''\<rparr>,
      (entry (JNum 3) JUndefined JUndefined JUndefined)\<lparr>dataInserimento := JNull\<rparr>]
   \<and> (\<exists>sorted. sortImmobili sample_host
         [entry (JNum 1) JUndefined JUndefined JUndefined,
          (entry (JNum 2) JUndefined JUndefined JUndefined)\<lparr>dataInserimento := JStr ''2024-05-01''\<rparr>,
          (entry (JNum 3) JUndefined JUndefined JUndefined)\<lparr>dataInserimento := JNull\<rparr>] ''recente''
           = Inr sorted
       \<and> filter (\<lambda>e. data_ordine e = JStr []) sorted
           = [entry (JNum 1) JUndefined JUndefined JUndefined,
              (entry (JNum 3) JUndefined JUndefined JUndefined)\<lparr>dataInserimento := JNull\<rparr>])"
proof -
  let ?xs = "[entry (JNum 1) (JNum 5) JUndefined JUndefined, entry (JNum 2) (JNum 3) JUndefined JUndefined,
      entry (JNum 3) (JNum 5) JUndefined JUndefined]"
  let ?ds = "[entry (JNum 1) JUndefined JUndefined JUndefined,
      (entry (JNum 2) JUndefined JUndefined JUndefined)\<lparr>dataInserimento := JStr ''2024-05-01''\<rparr>,
      (entry (JNum 3) JUndefined JUndefined JUndefined)\<lparr>dataInserimento := JNull\<rparr>]"
  have p: "sortable sample_host ''prezzo-crescente'' ?xs"
    by (simp add: sortable_def sortable_prices_def prezzo_ordine_def js_or_def entry_def)
  have d: "sortable sample_host ''recente'' ?ds"
    by (simp add: sortable_def sortable_dates_def data_ordine_def js_or_def entry_def
        sample_collation_consistent)
  from sortImmobili_stable [OF p] obtain s1 where
    s1: "sortImmobili sample_host ?xs ''prezzo-crescente'' = Inr s1"
      "filter (\<lambda>e. prezzo_ordine sample_host e = Fin 5) s1
         = filter (\<lambda>e. prezzo_ordine sample_host e = Fin 5) ?xs"
    by auto
  have f1: "filter (\<lambda>e. prezzo_ordine sample_host e = Fin 5) ?xs
      = [entry (JNum 1) (JNum 5) JUndefined JUndefined, entry (JNum 3) (JNum 5) JUndefined JUndefined]"
    by (simp add: prezzo_ordine_def js_or_def entry_def)
  from sortImmobili_stable [OF d] obtain s2 where
    s2: "sortImmobili sample_host ?ds ''recente'' = Inr s2"
      "filter (\<lambda>e. data_ordine e = JStr []) s2 = filter (\<lambda>e. data_ordine e = JStr []) ?ds"
    by auto
  have f2: "filter (\<lambda>e. data_ordine e = JStr []) ?ds
      = [entry (JNum 1) JUndefined JUndefined JUndefined,
         (entry (JNum 3) JUndefined JUndefined JUndefined)\<lparr>dataInserimento := JNull\<rparr>]"
    by (simp add: data_ordine_def js_or_def entry_def)
  from p d s1 f1 s2 f2 show ?thesis by (metis (no_types, lifting))
qed

lemma prezzo_ordine_normalized:
  "is_number (prezzo e) \<or> \<not> truthy (prezzo e) \<Longrightarrow> prezzo_ordine h e = Fin (normalized_price e)"
  by (cases "prezzo e") (auto simp: prezzo_ordine_def normalized_price_def js_or_def)

lemma prezzo_ordine_text:
  "prezzo e = JStr s \<and> s \<noteq> [] \<Longrightarrow> prezzo_ordine h e = StringToNumber h s"
  by (simp add: prezzo_ordine_def js_or_def)

lemma data_ordine_text:
  "dataInserimento e = JStr s \<Longrightarrow> data_ordine e = JStr s"
  "\<not> truthy (dataInserimento e) \<Longrightarrow> data_ordine e = JStr []"
  by (auto simp: data_ordine_def js_or_def)

lemma scenario_B:
  "sortImmobili h [entry (JNum 1) (JNum 100000) (JStr ''sale'') (JStr ''Milano''),
                   entry (JNum 2) (JNum 50000) (JStr ''rent'') (JStr ''Roma'')] ''prezzo-crescente''
   = Inr [entry (JNum 2) (JNum 50000) (JStr ''rent'') (JStr ''Roma''),
          entry (JNum 1) (JNum 100000) (JStr ''sale'') (JStr ''Milano'')]"
  by (simp add: sortImmobili_def cmp_prezzo_crescente_def prezzo_ordine_def js_or_def entry_def)

text \<open>
  Claim C4, as stated, fails: the price modes do not order by the normalized price.
  Below, the first entry has the text price \<^verbatim>\<open>"50000"\<close>, whose normalized price is 0,
  and the second has the price 100; the subtraction converts the text to 50000, so
  the ascending sort puts the entry with price 100 first.
\<close>

theorem text_price_sorted_by_its_number:
  "normalized_price (entry (JNum 1) (JStr ''50000'') JUndefined JUndefined) = 0
   \<and> normalized_price (entry (JNum 2) (JNum 100) JUndefined JUndefined) = 100
   \<and> sortImmobili sample_host
        [entry (JNum 1) (JStr ''50000'') JUndefined JUndefined,
         entry (JNum 2) (JNum 100) JUndefined JUndefined] ''prezzo-crescente''
      = Inr [entry (JNum 2) (JNum 100) JUndefined JUndefined,
             entry (JNum 1) (JStr ''50000'') JUndefined JUndefined]"
  by (simp add: normalized_price_def sortImmobili_def cmp_prezzo_crescente_def prezzo_ordine_def
      js_or_def entry_def sample_host_def is_digit_def digits_value_def)

text \<open>
  Claim C4, amended. On an input on which the comparator is consistent: in the
  default mode the result holds the input's entries ordered by their date operands,
  descending, in the order of the host's \<^verbatim>\<open>String.prototype.localeCompare\<close> (the
  locale's comparison of the two texts, whatever it is); no date is parsed, a date
  that is a string is its own operand and an absent date is the empty string. In
  the two price modes the entries are ordered by the price operand, ascending or
  descending: the operand of a number is the number, the operand of a missing price
  is 0, and the operand of a non-empty text is the number the host converts it to.
  Scenario B gives the entry with id 2 first.
\<close>

theorem sortImmobili_order:
  "(ord \<noteq> ''prezzo-crescente'' \<and> ord \<noteq> ''prezzo-decrescente'' \<and> sortable_dates h immobili \<longrightarrow>
      (\<exists>sorted. sortImmobili h immobili ord = Inr sorted \<and> mset sorted = mset immobili
         \<and> sorted_wrt (\<lambda>a b. localeCompare h (ToString (data_ordine b)) (ToString (data_ordine a)) \<le> 0)
              sorted))
   \<and> (dataInserimento e = JStr s \<longrightarrow> data_ordine e = JStr s)
   \<and> (\<not> truthy (dataInserimento e) \<longrightarrow> data_ordine e = JStr [])
   \<and> (sortable_prices h immobili \<longrightarrow>
      (\<exists>sorted. sortImmobili h immobili ''prezzo-crescente'' = Inr sorted \<and> mset sorted = mset immobili
         \<and> sorted_wrt (\<lambda>a b. \<not> js_gt (prezzo_ordine h a) (prezzo_ordine h b)) sorted))
   \<and> (sortable_prices h immobili \<longrightarrow>
      (\<exists>sorted. sortImmobili h immobili ''prezzo-decrescente'' = Inr sorted \<and> mset sorted = mset immobili
         \<and> sorted_wrt (\<lambda>a b. \<not> js_lt (prezzo_ordine h a) (prezzo_ordine h b)) sorted))
   \<and> (is_number (prezzo e) \<or> \<not> truthy (prezzo e) \<longrightarrow> prezzo_ordine h e = Fin (normalized_price e))
   \<and> (prezzo e = JStr s \<and> s \<noteq> [] \<longrightarrow> prezzo_ordine h e = StringToNumber h s)
   \<and> sortImmobili h [entry (JNum 1) (JNum 100000) (JStr ''sale'') (JStr ''Milano''),
                      entry (JNum 2) (JNum 50000) (JStr ''rent'') (JStr ''Roma'')] ''prezzo-crescente''
      = Inr [entry (JNum 2) (JNum 50000) (JStr ''rent'') (JStr ''Roma''),
             entry (JNum 1) (JNum 100000) (JStr ''sale'') (JStr ''Milano'')]"
proof (intro conjI impI)
  assume a: "ord \<noteq> ''prezzo-crescente'' \<and> ord \<noteq> ''prezzo-decrescente'' \<and> sortable_dates h immobili"
  then have "sortable_dates h immobili" by simp
  from sort_recente [OF this] a
  show "\<exists>sorted. sortImmobili h immobili ord = Inr sorted \<and> mset sorted = mset immobili
         \<and> sorted_wrt (\<lambda>a b. localeCompare h (ToString (data_ordine b)) (ToString (data_ordine a)) \<le> 0)
              sorted"
    by (simp add: sortImmobili_modes(3)) blast
next
  assume "dataInserimento e = JStr s"
  then show "data_ordine e = JStr s" by (rule data_ordine_text(1))
next
  assume "\<not> truthy (dataInserimento e)"
  then show "data_ordine e = JStr []" by (rule data_ordine_text(2))
next
  assume "sortable_prices h immobili"
  from sort_crescente [OF this]
  show "\<exists>sorted. sortImmobili h immobili ''prezzo-crescente'' = Inr sorted \<and> mset sorted = mset immobili
         \<and> sorted_wrt (\<lambda>a b. \<not> js_gt (prezzo_ordine h a) (prezzo_ordine h b)) sorted"
    by (simp add: sortImmobili_modes(1)) blast
next
  assume "sortable_prices h immobili"
  from sort_decrescente [OF this]
  show "\<exists>sorted. sortImmobili h immobili ''prezzo-decrescente'' = Inr sorted \<and> mset sorted = mset immobili
         \<and> sorted_wrt (\<lambda>a b. \<not> js_lt (prezzo_ordine h a) (prezzo_ordine h b)) sorted"
    by (simp add: sortImmobili_modes(2)) blast
next
  assume "is_number (prezzo e) \<or> \<not> truthy (prezzo e)"
  then show "prezzo_ordine h e = Fin (normalized_price e)" by (rule prezzo_ordine_normalized)
next
  assume "prezzo e = JStr s \<and> s \<noteq> []"
  then show "prezzo_ordine h e = StringToNumber h s" by (rule prezzo_ordine_text)
next
  show "sortImmobili h [entry (JNum 1) (JNum 100000) (JStr ''sale'') (JStr ''Milano''),
                      entry (JNum 2) (JNum 50000) (JStr ''rent'') (JStr ''Roma'')] ''prezzo-crescente''
      = Inr [entry (JNum 2) (JNum 50000) (JStr ''rent'') (JStr ''Roma''),
             entry (JNum 1) (JNum 100000) (JStr ''sale'') (JStr ''Milano'')]"
    by (rule scenario_B)
qed

lemma recente_example:
  "sortImmobili sample_host
     [dated 1 (JStr ''2024-03-01''), dated 2 JUndefined, dated 3 (JStr ''2024-05-01'')] ''recente''
   = Inr [dated 3 (JStr ''2024-05-01''), dated 1 (JStr ''2024-03-01''), dated 2 JUndefined]"
  by (simp add: sortImmobili_def cmp_recente_def data_ordine_def js_or_def dated_def entry_def
      sample_host_def)

lemma decrescente_example:
  "sortImmobili sample_host
     [dated 1 (JStr ''2024-03-01''), (dated 2 JUndefined)\<lparr>prezzo := JNum 7\<rparr>, dated 3 JNull]
     ''prezzo-decrescente''
   = Inr [(dated 2 JUndefined)\<lparr>prezzo := JNum 7\<rparr>, dated 1 (JStr ''2024-03-01''), dated 3 JNull]"
  by (simp add: sortImmobili_def cmp_prezzo_decrescente_def prezzo_ordine_def js_or_def dated_def
      entry_def)

theorem sortImmobili_order_witness:
  "sortable_dates sample_host
      [dated 1 (JStr ''2024-03-01''), dated 2 JUndefined, dated 3 (JStr ''2024-05-01'')]
   \<and> sortable_prices sample_host
      [dated 1 (JStr ''2024-03-01''), dated 2 JUndefined, dated 3 (JStr ''2024-05-01'')]
   \<and> sortImmobili sample_host
        [dated 1 (JStr ''2024-03-01''), dated 2 JUndefined, dated 3 (JStr ''2024-05-01'')] ''recente''
      = Inr [dated 3 (JStr ''2024-05-01''), dated 1 (JStr ''2024-03-01''), dated 2 JUndefined]
   \<and> sorted_wrt (\<lambda>a b. localeCompare sample_host (ToString (data_ordine b)) (ToString (data_ordine a)) \<le> 0)
        [dated 3 (JStr ''2024-05-01''), dated 1 (JStr ''2024-03-01''), dated 2 JUndefined]
   \<and> data_ordine (dated 3 (JStr ''2024-05-01'')) = JStr ''2024-05-01''
   \<and> data_ordine (dated 2 JUndefined) = JStr []
   \<and> prezzo_ordine sample_host (dated 2 JUndefined) = Fin 0
   \<and> prezzo_ordine sample_host ((dated 4 JNull)\<lparr>prezzo := JStr ''50000''\<rparr>) = Fin 50000
   \<and> (\<exists>sorted. sortImmobili sample_host
          [dated 1 (JStr ''2024-03-01''), dated 2 JUndefined, dated 3 (JStr ''2024-05-01'')]
          ''prezzo-crescente'' = Inr sorted
        \<and> sorted_wrt (\<lambda>a b. \<not> js_gt (prezzo_ordine sample_host a) (prezzo_ordine sample_host b)) sorted)
   \<and> (\<exists>sorted. sortImmobili sample_host
          [dated 1 (JStr ''2024-03-01''), dated 2 JUndefined, dated 3 (JStr ''2024-05-01'')]
          ''prezzo-decrescente'' = Inr sorted
        \<and> sorted_wrt (\<lambda>a b. \<not> js_lt (prezzo_ordine sample_host a) (prezzo_ordine sample_host b)) sorted)"
proof -
  let ?ds = "[dated 1 (JStr ''2024-03-01''), dated 2 JUndefined, dated 3 (JStr ''2024-05-01'')]"
  have d: "sortable_dates sample_host ?ds"
    by (simp add: sortable_dates_def data_ordine_def js_or_def dated_def entry_def
        sample_collation_consistent)
  have p: "sortable_prices sample_host ?ds"
    by (simp add: sortable_prices_def prezzo_ordine_def js_or_def dated_def entry_def)
  have m: "''recente'' \<noteq> ''prezzo-crescente'' \<and> ''recente'' \<noteq> ''prezzo-decrescente''"
    by simp
  have t: "dataInserimento (dated 3 (JStr ''2024-05-01'')) = JStr ''2024-05-01''"
    by (simp add: dated_def)
  have u: "\<not> truthy (dataInserimento (dated 2 JUndefined))"
    by (simp add: dated_def)
  have n: "is_number (prezzo (dated 2 JUndefined)) \<or> \<not> truthy (prezzo (dated 2 JUndefined))"
    by (simp add: dated_def entry_def)
  have z: "normalized_price (dated 2 JUndefined) = 0"
    by (simp add: normalized_price_def dated_def entry_def)
  note A = sortImmobili_order [of "''recente''" sample_host ?ds "dated 3 (JStr ''2024-05-01'')" "''2024-05-01''"]
  note B = sortImmobili_order [of "''recente''" sample_host ?ds "dated 2 JUndefined" "[]"]
  from A d m have 1: "\<exists>sorted. sortImmobili sample_host ?ds ''recente'' = Inr sorted \<and> mset sorted = mset ?ds
         \<and> sorted_wrt (\<lambda>a b. localeCompare sample_host (ToString (data_ordine b)) (ToString (data_ordine a)) \<le> 0)
              sorted" by blast
  have 2: "sortImmobili sample_host ?ds ''recente''
      = Inr [dated 3 (JStr ''2024-05-01''), dated 1 (JStr ''2024-03-01''), dated 2 JUndefined]"
    by (rule recente_example)
  from 1 2 have 3: "sorted_wrt (\<lambda>a b. localeCompare sample_host (ToString (data_ordine b)) (ToString (data_ordine a)) \<le> 0)
        [dated 3 (JStr ''2024-05-01''), dated 1 (JStr ''2024-03-01''), dated 2 JUndefined]"
    by auto
  from A t have 4: "data_ordine (dated 3 (JStr ''2024-05-01'')) = JStr ''2024-05-01''" by blast
  from B u have 5: "data_ordine (dated 2 JUndefined) = JStr []" by blast
  from B n z have 6: "prezzo_ordine sample_host (dated 2 JUndefined) = Fin 0" by simp
  have w: "prezzo ((dated 4 JNull)\<lparr>prezzo := JStr ''50000''\<rparr>) = JStr ''50000'' \<and> ''50000'' \<noteq> []"
    by simp
  have v: "StringToNumber sample_host ''50000'' = Fin 50000"
    by (simp add: sample_host_def is_digit_def digits_value_def)
  note C = sortImmobili_order [of "''recente''" sample_host ?ds
      "(dated 4 JNull)\<lparr>prezzo := JStr ''50000''\<rparr>" "''50000''"]
  from C w v have 9: "prezzo_ordine sample_host ((dated 4 JNull)\<lparr>prezzo := JStr ''50000''\<rparr>) = Fin 50000"
    by simp
  from A p have 7: "\<exists>sorted. sortImmobili sample_host ?ds ''prezzo-crescente'' = Inr sorted
        \<and> sorted_wrt (\<lambda>a b. \<not> js_gt (prezzo_ordine sample_host a) (prezzo_ordine sample_host b)) sorted"
    by blast
  from A p have 8: "\<exists>sorted. sortImmobili sample_host ?ds ''prezzo-decrescente'' = Inr sorted
        \<and> sorted_wrt (\<lambda>a b. \<not> js_lt (prezzo_ordine sample_host a) (prezzo_ordine sample_host b)) sorted"
    by blast
  from d p 2 3 4 5 6 9 7 8 show ?thesis by (intro conjI)
qed

section \<open>Properties of the operations on the store\<close>

lemma sort_insert_map:
  "sort_insert cmp (f x) (map f ys) =
     (case sort_insert (\<lambda>r s. cmp (f r) (f s)) x ys of Inl e \<Rightarrow> Inl e | Inr zs \<Rightarrow> Inr (map f zs))"
  by (induction ys) (auto split: sum.splits)

lemma Array_sort_map:
  "Array_sort cmp (map f xs) =
     (case Array_sort (\<lambda>r s. cmp (f r) (f s)) xs of Inl e \<Rightarrow> Inl e | Inr ys \<Rightarrow> Inr (map f ys))"
proof (induction xs)
  case Nil
  show ?case by simp
next
  case (Cons x xs)
  show ?case
  proof (cases "Array_sort (\<lambda>r s. cmp (f r) (f s)) xs")
    case (Inl e)
    with Cons show ?thesis by simp
  next
    case (Inr ys)
    with Cons show ?thesis by (simp add: sort_insert_map)
  qed
qed

lemma new_array_frame:
  assumes "new_array st refs = (st', r)"
  shows "r = next_array st" "objects st' = objects st" "arrays st' r = refs"
    "next_array st' = Suc (next_array st)" "\<And>b. b \<noteq> next_array st \<Longrightarrow> arrays st' b = arrays st b"
  using assms by (auto simp: new_array_def)

lemma filterImmobili_heap_frame:
  assumes "a < next_array st" and "filterImmobili_heap st a fs = (st', r)"
  shows "r \<noteq> a" "objects st' = objects st" "\<forall>b. b < next_array st \<longrightarrow> arrays st' b = arrays st b"
    "contents st' r = filterImmobili (contents st a) fs"
    "arrays st' r = filter (\<lambda>x. filter_callback fs (objects st x)) (arrays st a)"
    "next_array st' = Suc (next_array st)"
  using assms
  by (auto simp: filterImmobili_heap_def Array_filter_heap_def new_array_def contents_def
      filterImmobili_def filter_map comp_def)

lemma Array_sort_heap_frame:
  assumes "list \<noteq> a"
  shows "case Array_sort_heap st list cmp of
           Inl (e, st') \<Rightarrow> st' = st \<and> Array_sort cmp (contents st list) = Inl e
         | Inr st' \<Rightarrow> objects st' = objects st \<and> (\<forall>b. b \<noteq> list \<longrightarrow> arrays st' b = arrays st b)
             \<and> Array_sort cmp (contents st list) = Inr (contents st' list)"
  by (auto simp: Array_sort_heap_def contents_def Array_sort_map split: sum.splits)

lemma sortImmobili_heap_frame:
  assumes "a < next_array st"
  shows "case sortImmobili_heap h st a ord of
           Inl (e, st') \<Rightarrow> objects st' = objects st
              \<and> (\<forall>b. b < next_array st \<longrightarrow> arrays st' b = arrays st b)
              \<and> sortImmobili h (contents st a) ord = Inl e
         | Inr (st', r) \<Rightarrow> r \<noteq> a \<and> objects st' = objects st
              \<and> (\<forall>b. b < next_array st \<longrightarrow> arrays st' b = arrays st b)
              \<and> sortImmobili h (contents st a) ord = Inr (contents st' r)"
proof -
  obtain st1 list where sl: "Array_slice_heap st a = (st1, list)" by (cases "Array_slice_heap st a")
  then have l: "list = next_array st" and o1: "objects st1 = objects st"
    and c1: "arrays st1 list = arrays st a"
    and f1: "\<And>b. b \<noteq> next_array st \<Longrightarrow> arrays st1 b = arrays st b"
    unfolding Array_slice_heap_def by (auto dest: new_array_frame)
  have ne: "list \<noteq> a" using l assms by simp
  have cont: "contents st1 list = contents st a" by (simp add: contents_def o1 c1)
  have old: "\<And>b. b < next_array st \<Longrightarrow> b \<noteq> list" using l by simp
  have step: "\<And>cmp. case Array_sort_heap st1 list cmp of
           Inl (e, st') \<Rightarrow> objects st' = objects st
              \<and> (\<forall>b. b < next_array st \<longrightarrow> arrays st' b = arrays st b)
              \<and> Array_sort cmp (contents st a) = Inl e
         | Inr st' \<Rightarrow> objects st' = objects st
              \<and> (\<forall>b. b < next_array st \<longrightarrow> arrays st' b = arrays st b)
              \<and> Array_sort cmp (contents st a) = Inr (contents st' list)"
  proof -
    fix cmp
    show "?thesis cmp"
      using Array_sort_heap_frame [OF ne, of st1 cmp] o1 f1 old cont l
      by (auto split: sum.splits)
  qed
  show ?thesis
    using step [of "cmp_prezzo_crescente h"] step [of "cmp_prezzo_decrescente h"]
      step [of "cmp_recente h"] ne
    by (auto simp: sortImmobili_heap_def sl sortImmobili_def split: sum.splits)
qed

text \<open>
  Claim C5. Let \<open>a\<close> be an allocated array (the snapshot). \<^verbatim>\<open>filterImmobili\<close> returns
  a new array, leaves every object and every array allocated before the call as it
  was, and the entries of its result are those the filter on values gives; invoked
  again with the same arguments it returns an array with the same elements, and the
  snapshot is still unchanged. \<^verbatim>\<open>sortImmobili\<close> returns a new array holding the sorted
  copy, and leaves every object and every earlier array, the snapshot among them, as it
  was, also when the comparator raises.
\<close>

theorem filter_sort_leave_snapshot:
  assumes "a < next_array st"
  shows "(case filterImmobili_heap st a fs of
            (st', r) \<Rightarrow> r \<noteq> a \<and> objects st' = objects st
              \<and> (\<forall>b. b < next_array st \<longrightarrow> arrays st' b = arrays st b)
              \<and> contents st' r = filterImmobili (contents st a) fs
              \<and> (case filterImmobili_heap st' a fs of
                    (st'', r') \<Rightarrow> arrays st'' r' = arrays st' r \<and> objects st'' = objects st
                       \<and> (\<forall>b. b < next_array st \<longrightarrow> arrays st'' b = arrays st b)))
       \<and> (case sortImmobili_heap h st a ord of
            Inl (e, st') \<Rightarrow> objects st' = objects st
              \<and> (\<forall>b. b < next_array st \<longrightarrow> arrays st' b = arrays st b)
              \<and> sortImmobili h (contents st a) ord = Inl e
          | Inr (st', r) \<Rightarrow> r \<noteq> a \<and> objects st' = objects st
              \<and> (\<forall>b. b < next_array st \<longrightarrow> arrays st' b = arrays st b)
              \<and> sortImmobili h (contents st a) ord = Inr (contents st' r))"
proof
  obtain st' r where 1: "filterImmobili_heap st a fs = (st', r)"
    by (cases "filterImmobili_heap st a fs")
  obtain st'' r' where 2: "filterImmobili_heap st' a fs = (st'', r')"
    by (cases "filterImmobili_heap st' a fs")
  note f1 = filterImmobili_heap_frame [OF assms 1]
  have a': "a < next_array st'" using f1(6) assms by simp
  note f2 = filterImmobili_heap_frame [OF a' 2]
  have same: "arrays st'' r' = arrays st' r"
    using f2(5) f1(5) f1(2) f1(3) assms by simp
  have old: "\<forall>b. b < next_array st \<longrightarrow> arrays st'' b = arrays st b"
    using f2(3) f1(3) f1(6) by simp
  show "case filterImmobili_heap st a fs of
            (st', r) \<Rightarrow> r \<noteq> a \<and> objects st' = objects st
              \<and> (\<forall>b. b < next_array st \<longrightarrow> arrays st' b = arrays st b)
              \<and> contents st' r = filterImmobili (contents st a) fs
              \<and> (case filterImmobili_heap st' a fs of
                    (st'', r') \<Rightarrow> arrays st'' r' = arrays st' r \<and> objects st'' = objects st
                       \<and> (\<forall>b. b < next_array st \<longrightarrow> arrays st'' b = arrays st b))"
    using f1(1-4) f2(2) same old by (simp add: 1 2)
next
  show "case sortImmobili_heap h st a ord of
            Inl (e, st') \<Rightarrow> objects st' = objects st
              \<and> (\<forall>b. b < next_array st \<longrightarrow> arrays st' b = arrays st b)
              \<and> sortImmobili h (contents st a) ord = Inl e
          | Inr (st', r) \<Rightarrow> r \<noteq> a \<and> objects st' = objects st
              \<and> (\<forall>b. b < next_array st \<longrightarrow> arrays st' b = arrays st b)
              \<and> sortImmobili h (contents st a) ord = Inr (contents st' r)"
    by (rule sortImmobili_heap_frame [OF assms])
qed

lemma sample_store_runs:
  "(case filterImmobili_heap sample_store 0 (no_filters\<lparr>prezzoMin := Some (Fin 8)\<rparr>) of
      (st', r) \<Rightarrow> r = 1 \<and> arrays st' r = [1, 2] \<and> arrays st' 0 = [1, 2, 3])"
  "(case sortImmobili_heap sample_host sample_store 0 ''prezzo-crescente'' of
      Inl x \<Rightarrow> False
    | Inr (st', r) \<Rightarrow> r = 1 \<and> arrays st' r = [3, 2, 1] \<and> arrays st' 0 = [1, 2, 3])"
  by (simp_all add: filterImmobili_heap_def Array_filter_heap_def new_array_def sample_store_def
      filter_callback_def below_min_def above_max_def prezzo_filtro_def entry_def no_filters_def
      sortImmobili_heap_def Array_slice_heap_def Array_sort_heap_def cmp_prezzo_crescente_def
      prezzo_ordine_def js_or_def)

theorem filter_sort_leave_snapshot_witness:
  "0 < next_array sample_store
   \<and> (case filterImmobili_heap sample_store 0 (no_filters\<lparr>prezzoMin := Some (Fin 8)\<rparr>) of
        (st', r) \<Rightarrow> r = 1 \<and> arrays st' r = [1, 2] \<and> arrays st' 0 = [1, 2, 3]
          \<and> objects st' = objects sample_store
          \<and> contents st' r = filterImmobili (contents sample_store 0) (no_filters\<lparr>prezzoMin := Some (Fin 8)\<rparr>))
   \<and> (case sortImmobili_heap sample_host sample_store 0 ''prezzo-crescente'' of
        Inl x \<Rightarrow> False
      | Inr (st', r) \<Rightarrow> r = 1 \<and> arrays st' r = [3, 2, 1] \<and> arrays st' 0 = [1, 2, 3]
          \<and> objects st' = objects sample_store
          \<and> sortImmobili sample_host (contents sample_store 0) ''prezzo-crescente'' = Inr (contents st' r))"
proof -
  have h: "0 < next_array sample_store" by (simp add: sample_store_def)
  note T = filter_sort_leave_snapshot [OF h, of "no_filters\<lparr>prezzoMin := Some (Fin 8)\<rparr>"
      sample_host "''prezzo-crescente''"]
  from h T sample_store_runs show ?thesis
    by (auto split: prod.splits sum.splits)
qed

section \<open>Properties of the load\<close>

text \<open>
  Claim C8. Whatever the request does, both \<^verbatim>\<open>fetchImmobili\<close> resolve, never reject:
  to the empty list on a transport failure, on a status outside 200 to 299, on a body
  that is not JSON and on a JSON value that is not an array, which is also what an
  empty array gives; and to the array itself when the response is a success with an
  array.
\<close>

theorem fetchImmobili_never_rejects:
  "(\<exists>xs. fetchImmobili outcome = Inr xs) \<and> (\<exists>xs. fetchImmobili_listing outcome = Inr xs)
   \<and> fetchImmobili Transport_failure = Inr [] \<and> fetchImmobili_listing Transport_failure = Inr []
   \<and> (\<not> response_ok status \<longrightarrow> fetchImmobili (Response status body) = Inr []
          \<and> fetchImmobili_listing (Response status body) = Inr [])
   \<and> fetchImmobili (Response status Invalid_json) = Inr []
   \<and> fetchImmobili_listing (Response status Invalid_json) = Inr []
   \<and> fetchImmobili (Response status (Valid Data_other)) = Inr []
   \<and> fetchImmobili_listing (Response status (Valid Data_other)) = Inr []
   \<and> (response_ok status \<longrightarrow> fetchImmobili (Response status (Valid (Data_array xs))) = Inr xs
          \<and> fetchImmobili_listing (Response status (Valid (Data_array xs))) = Inr xs)
   \<and> fetchImmobili (Response 200 (Valid (Data_array []))) = Inr []
   \<and> fetchImmobili_listing (Response 200 (Valid (Data_array []))) = Inr []"
  by (auto simp: fetchImmobili_def fetchImmobili_listing_def catch_promise_def then_promise_def
      fetch_def response_json_def response_ok_def
      split: fetch_outcome.splits json_body.splits json_data.splits sum.splits)

theorem fetchImmobili_never_rejects_witness:
  "\<not> response_ok 404
   \<and> fetchImmobili (Response 404 (Valid (Data_array [entry (JNum 1) (JNum 5) JNull JNull]))) = Inr []
   \<and> fetchImmobili_listing (Response 404 (Valid (Data_array [entry (JNum 1) (JNum 5) JNull JNull])))
       = Inr []
   \<and> response_ok 200
   \<and> fetchImmobili (Response 200 (Valid (Data_array [entry (JNum 1) (JNum 5) JNull JNull])))
       = Inr [entry (JNum 1) (JNum 5) JNull JNull]
   \<and> fetchImmobili_listing (Response 200 (Valid (Data_array [entry (JNum 1) (JNum 5) JNull JNull])))
       = Inr [entry (JNum 1) (JNum 5) JNull JNull]"
proof -
  have a: "\<not> response_ok 404" and b: "response_ok 200" by (simp_all add: response_ok_def)
  from a b
    fetchImmobili_never_rejects [of Transport_failure 404
      "Valid (Data_array [entry (JNum 1) (JNum 5) JNull JNull])" "[]"]
    fetchImmobili_never_rejects [of Transport_failure 200 Invalid_json
      "[entry (JNum 1) (JNum 5) JNull JNull]"]
  show ?thesis by blast
qed

section \<open>Properties of the options\<close>

lemma push_new_props:
  "distinct acc \<Longrightarrow> distinct (push_new acc v)"
  "set (push_new acc v) = set acc \<union> (if truthy v then {v} else {})"
  by (auto simp: push_new_def)

lemma foldl_collect_fst:
  "fst (foldl collect_step acc xs) = foldl push_new (fst acc) (map citta xs)"
  by (induction xs arbitrary: acc) (simp_all add: collect_step_def)

lemma foldl_collect_snd:
  "snd (foldl collect_step acc xs) = foldl push_new (snd acc) (map tipoImmobile xs)"
  by (induction xs arbitrary: acc) (simp_all add: collect_step_def)

lemma foldl_push_new_distinct: "distinct acc \<Longrightarrow> distinct (foldl push_new acc vs)"
  by (induction vs arbitrary: acc) (simp_all add: push_new_props(1))

lemma foldl_push_new_set: "set (foldl push_new acc vs) = set acc \<union> {v \<in> set vs. truthy v}"
  by (induction vs arbitrary: acc) (auto simp: push_new_props(2))

lemma cmp_le_default: "cmp_le default_compare x y \<longleftrightarrow> ToString x \<le> ToString y"
  by (auto simp: cmp_le_def default_compare_def)

lemma sort_default:
  "\<exists>ys. Array_sort default_compare xs = Inr ys \<and> mset ys = mset xs \<and> sorted (map ToString ys)"
proof -
  have "\<forall>x\<in>set xs. \<forall>y\<in>set xs. \<exists>v. default_compare x y = Inr v"
    by (simp add: default_compare_def)
  then obtain ys where ys: "Array_sort default_compare xs = Inr ys"
    using Array_sort_returns [of xs default_compare] by blast
  have m: "mset ys = mset xs" using ys by (rule Array_sort_mset)
  have "sorted_wrt (cmp_le default_compare) ys"
  proof (rule Array_sort_sorted [OF ys])
    fix x y assume "\<not> cmp_le default_compare x y"
    then show "cmp_le default_compare y x" unfolding cmp_le_default by simp
  next
    fix x y z assume "cmp_le default_compare x y" "cmp_le default_compare y z"
    then show "cmp_le default_compare x z" unfolding cmp_le_default by (rule order_trans)
  qed
  then have "sorted_wrt (\<lambda>x y. ToString x \<le> ToString y) ys"
    by (simp add: cmp_le_default [abs_def])
  then have "sorted (map ToString ys)" by (simp add: sorted_wrt_map)
  with ys m show ?thesis by blast
qed

lemma alphabetical_key_example:
  "alphabetical_key ''Zara'' = ''zara''" "alphabetical_key ''alba'' = ''alba''"
  by code_simp+

text \<open>
  Claim C9, as stated, fails: the order is not alphabetical. \<^verbatim>\<open>sort()\<close> with no
  comparator compares code units, and every capital letter comes before every small
  one: the cities \<^verbatim>\<open>"alba"\<close> and \<^verbatim>\<open>"Zara"\<close> come out with \<^verbatim>\<open>"Zara"\<close> first.
\<close>

theorem facets_not_alphabetical:
  "populateFilterOptions_arrays
     [entry (JNum 1) JNull JNull (JStr ''alba''), entry (JNum 2) JNull JNull (JStr ''Zara'')]
   = Inr ([JStr ''Zara'', JStr ''alba''], [])
   \<and> \<not> sorted (map alphabetical_key (map ToString [JStr ''Zara'', JStr ''alba'']))"
  by (simp add: populateFilterOptions_arrays_def collect_step_def push_new_def default_compare_def
      entry_def alphabetical_key_example)

text \<open>
  Claim C9, amended. The two arrays computed for the filter controls (cities and
  property types) hold exactly the non-empty (truthy) values that occur in the
  snapshot, each once, ordered by their string forms in the order of the code units
  (the default order of \<^verbatim>\<open>Array.prototype.sort\<close>).
\<close>

theorem populateFilterOptions_facets:
  "\<exists>c t. populateFilterOptions_arrays immobili = Inr (c, t)
     \<and> distinct c \<and> set c = {v \<in> set (map citta immobili). truthy v} \<and> sorted (map ToString c)
     \<and> distinct t \<and> set t = {v \<in> set (map tipoImmobile immobili). truthy v}
     \<and> sorted (map ToString t)"
proof -
  obtain c0 t0 where f: "foldl collect_step ([], []) immobili = (c0, t0)"
    by (cases "foldl collect_step ([], []) immobili")
  have c0: "c0 = foldl push_new [] (map citta immobili)"
    using foldl_collect_fst [of "([], [])" immobili] f by simp
  have t0: "t0 = foldl push_new [] (map tipoImmobile immobili)"
    using foldl_collect_snd [of "([], [])" immobili] f by simp
  have dc: "distinct c0" and sc: "set c0 = {v \<in> set (map citta immobili). truthy v}"
    unfolding c0 by (simp_all add: foldl_push_new_distinct foldl_push_new_set)
  have dt: "distinct t0" and st: "set t0 = {v \<in> set (map tipoImmobile immobili). truthy v}"
    unfolding t0 by (simp_all add: foldl_push_new_distinct foldl_push_new_set)
  from sort_default [of c0] obtain c where
    c: "Array_sort default_compare c0 = Inr c" "mset c = mset c0" "sorted (map ToString c)" by blast
  from sort_default [of t0] obtain t where
    t: "Array_sort default_compare t0 = Inr t" "mset t = mset t0" "sorted (map ToString t)" by blast
  have r: "populateFilterOptions_arrays immobili = Inr (c, t)"
    by (simp add: populateFilterOptions_arrays_def f c(1) t(1))
  have "distinct c" using mset_eq_imp_distinct_iff [OF c(2)] dc by simp
  moreover have "set c = {v \<in> set (map citta immobili). truthy v}"
    using mset_eq_setD [OF c(2)] sc by simp
  moreover have "distinct t" using mset_eq_imp_distinct_iff [OF t(2)] dt by simp
  moreover have "set t = {v \<in> set (map tipoImmobile immobili). truthy v}"
    using mset_eq_setD [OF t(2)] st by simp
  ultimately show ?thesis using r c(3) t(3) by blast
qed

lemma facets_example:
  "populateFilterOptions_arrays
     [(entry (JNum 1) JNull JNull (JStr ''Roma''))\<lparr>tipoImmobile := JStr ''villa''\<rparr>,
      entry (JNum 2) JNull JNull (JStr ''Milano''),
      (entry (JNum 3) JNull JNull (JStr ''Roma''))\<lparr>tipoImmobile := JStr ''attico''\<rparr>,
      (entry (JNum 4) JNull JNull (JStr []))\<lparr>tipoImmobile := JStr ''villa''\<rparr>]
   = Inr ([JStr ''Milano'', JStr ''Roma''], [JStr ''attico'', JStr ''villa''])"
  by (simp add: populateFilterOptions_arrays_def collect_step_def push_new_def default_compare_def
      entry_def)

theorem populateFilterOptions_facets_witness:
  "populateFilterOptions_arrays
     [(entry (JNum 1) JNull JNull (JStr ''Roma''))\<lparr>tipoImmobile := JStr ''villa''\<rparr>,
      entry (JNum 2) JNull JNull (JStr ''Milano''),
      (entry (JNum 3) JNull JNull (JStr ''Roma''))\<lparr>tipoImmobile := JStr ''attico''\<rparr>,
      (entry (JNum 4) JNull JNull (JStr []))\<lparr>tipoImmobile := JStr ''villa''\<rparr>]
   = Inr ([JStr ''Milano'', JStr ''Roma''], [JStr ''attico'', JStr ''villa''])
   \<and> distinct [JStr ''Milano'', JStr ''Roma''] \<and> sorted (map ToString [JStr ''Milano'', JStr ''Roma''])
   \<and> distinct [JStr ''attico'', JStr ''villa''] \<and> sorted (map ToString [JStr ''attico'', JStr ''villa''])"
  using populateFilterOptions_facets
    [of "[(entry (JNum 1) JNull JNull (JStr ''Roma''))\<lparr>tipoImmobile := JStr ''villa''\<rparr>,
      entry (JNum 2) JNull JNull (JStr ''Milano''),
      (entry (JNum 3) JNull JNull (JStr ''Roma''))\<lparr>tipoImmobile := JStr ''attico''\<rparr>,
      (entry (JNum 4) JNull JNull (JStr []))\<lparr>tipoImmobile := JStr ''villa''\<rparr>]"]
  unfolding facets_example by blast

section \<open>Properties of the home page\<close>

lemma initHomeImmobili_cards:
  assumes "home_grid p = Some g" and "fetchImmobili outcome = Inr immobili" and "immobili \<noteq> []"
  shows "home_grid (initHomeImmobili p outcome)
         = Some \<lparr>grid_display = [], grid_cards = map buildCardHtml (take 6 immobili)\<rparr>"
  using assms
  by (cases g) (simp add: initHomeImmobili_def MAX_CARD_HOME_def hideFallback_def Let_def)

text \<open>
  Claim C10. On a page with the grid, when the load gives a non-empty snapshot, the
  home page shows the cards of the first 6 entries of the snapshot, in snapshot order:
  never more than 6, and all of them when the snapshot has at most 6.
\<close>

theorem initHomeImmobili_first_six:
  assumes "home_grid p = Some g" and "response_ok status" and "immobili \<noteq> []"
  shows "\<exists>g'. home_grid (initHomeImmobili p (Response status (Valid (Data_array immobili)))) = Some g'
     \<and> grid_cards g' = map buildCardHtml (take 6 immobili)
     \<and> length (grid_cards g') \<le> 6
     \<and> (length immobili \<le> 6 \<longrightarrow> grid_cards g' = map buildCardHtml immobili)"
proof -
  have "fetchImmobili (Response status (Valid (Data_array immobili))) = Inr immobili"
    using assms(2)
    by (simp add: fetchImmobili_def catch_promise_def then_promise_def fetch_def response_json_def)
  from initHomeImmobili_cards [OF assms(1) this assms(3)] show ?thesis by simp
qed

theorem initHomeImmobili_first_six_witness:
  "home_grid sample_home = Some \<lparr>grid_display = [], grid_cards = []\<rparr> \<and> response_ok 200
   \<and> [dated 1 JNull, dated 2 JNull, dated 3 JNull, dated 4 JNull, dated 5 JNull, dated 6 JNull,
       dated 7 JNull] \<noteq> []
   \<and> (\<exists>g'. home_grid (initHomeImmobili sample_home (Response 200 (Valid (Data_array
           [dated 1 JNull, dated 2 JNull, dated 3 JNull, dated 4 JNull, dated 5 JNull, dated 6 JNull,
            dated 7 JNull])))) = Some g'
        \<and> grid_cards g' = map buildCardHtml
            [dated 1 JNull, dated 2 JNull, dated 3 JNull, dated 4 JNull, dated 5 JNull, dated 6 JNull])
   \<and> length [dated 1 JNull, dated 2 JNull] \<le> 6
   \<and> (\<exists>g'. home_grid (initHomeImmobili sample_home (Response 200 (Valid (Data_array
           [dated 1 JNull, dated 2 JNull])))) = Some g'
        \<and> grid_cards g' = map buildCardHtml [dated 1 JNull, dated 2 JNull])"
proof -
  have g: "home_grid sample_home = Some \<lparr>grid_display = [], grid_cards = []\<rparr>"
    by (simp add: sample_home_def)
  have ok: "response_ok 200" by (simp add: response_ok_def)
  have n7: "[dated 1 JNull, dated 2 JNull, dated 3 JNull, dated 4 JNull, dated 5 JNull, dated 6 JNull,
       dated 7 JNull] \<noteq> []" by simp
  have n2: "[dated 1 JNull, dated 2 JNull] \<noteq> []" by simp
  have l2: "length [dated 1 JNull, dated 2 JNull] \<le> 6" by simp
  from initHomeImmobili_first_six [OF g ok n7]
  have 7: "\<exists>g'. home_grid (initHomeImmobili sample_home (Response 200 (Valid (Data_array
           [dated 1 JNull, dated 2 JNull, dated 3 JNull, dated 4 JNull, dated 5 JNull, dated 6 JNull,
            dated 7 JNull])))) = Some g'
        \<and> grid_cards g' = map buildCardHtml
            [dated 1 JNull, dated 2 JNull, dated 3 JNull, dated 4 JNull, dated 5 JNull, dated 6 JNull]"
    by auto
  from initHomeImmobili_first_six [OF g ok n2] l2
  have 2: "\<exists>g'. home_grid (initHomeImmobili sample_home (Response 200 (Valid (Data_array
           [dated 1 JNull, dated 2 JNull])))) = Some g'
        \<and> grid_cards g' = map buildCardHtml [dated 1 JNull, dated 2 JNull]"
    by auto
  from g ok n7 7 l2 2 show ?thesis by (intro conjI)
qed

section \<open>Properties of the detail page\<close>

lemma find_loop_find:
  "find_loop xs ident = find (\<lambda>item. ToString (id_field item) = ToString ident) xs"
  by (induction xs) simp_all

lemma findImmobileById_find:
  "findImmobileById xs ident =
     (if truthy ident then find (\<lambda>item. ToString (id_field item) = ToString ident) xs else None)"
  by (cases xs) (simp_all add: findImmobileById_def find_loop_find)

lemma decimal_seven: "decimal 7 = ''7''"
  by code_simp

lemma find_None: "(\<forall>x\<in>set xs. \<not> P x) \<Longrightarrow> find P xs = None"
  by (simp add: find_None_iff)

lemma initImmobileDetail_not_found:
  assumes "detail_wrap p \<noteq> None" and "fetchImmobili outcome = Inr immobili"
    and "findImmobileById immobili (getQueryParam (query_id p)) = None"
  shows "initImmobileDetail p outcome = showImmobileFallback p"
  using assms by (auto simp: initImmobileDetail_def then_promise_def Let_def)

lemma showImmobileFallback_frame:
  "doc_title (showImmobileFallback p) = doc_title p"
  "meta_description (showImmobileFallback p) = meta_description p"
  "og_title (showImmobileFallback p) = og_title p"
  "og_description (showImmobileFallback p) = og_description p"
  "doc_head (showImmobileFallback p) = doc_head p"
  "doc_body (showImmobileFallback p) = doc_body p"
  "map_option detail_gallery (detail_wrap (showImmobileFallback p)) = map_option detail_gallery (detail_wrap p)"
  "map_option detail_sections (detail_wrap (showImmobileFallback p)) = map_option detail_sections (detail_wrap p)"
  by (simp_all add: showImmobileFallback_def option.map_comp comp_def)

text \<open>
  Claim C6. \<^verbatim>\<open>findImmobileById\<close> returns the first entry whose id has the same string
  form as the requested identifier, so the entry with id 7 answers the request
  \<^verbatim>\<open>"7"\<close> and the entry with id \<^verbatim>\<open>"7"\<close> answers the request 7; a falsy (absent or empty)
  identifier and an identifier no entry matches give not-found. On a not-found
  result \<^verbatim>\<open>initImmobileDetail\<close> only shows the fallback: the title, the description
  elements, the elements of the document (so no offer block), the gallery and the
  sections of the detail element are as before.
\<close>

theorem detail_resolution:
  "findImmobileById immobili ident =
     (if truthy ident then find (\<lambda>item. ToString (id_field item) = ToString ident) immobili else None)
   \<and> (id_field e = JNum 7 \<longrightarrow> findImmobileById [e] (JStr ''7'') = Some e)
   \<and> (id_field e = JStr ''7'' \<longrightarrow> findImmobileById [e] (JNum 7) = Some e)
   \<and> (query_id p = None \<or> query_id p = Some [] \<longrightarrow>
        findImmobileById immobili (getQueryParam (query_id p)) = None)
   \<and> ((\<forall>item\<in>set immobili. ToString (id_field item) \<noteq> ToString ident) \<longrightarrow>
        findImmobileById immobili ident = None)
   \<and> (detail_wrap p \<noteq> None \<and> fetchImmobili outcome = Inr immobili
        \<and> findImmobileById immobili (getQueryParam (query_id p)) = None \<longrightarrow>
        initImmobileDetail p outcome = showImmobileFallback p)
   \<and> doc_title (showImmobileFallback p) = doc_title p
   \<and> meta_description (showImmobileFallback p) = meta_description p
   \<and> og_title (showImmobileFallback p) = og_title p
   \<and> og_description (showImmobileFallback p) = og_description p
   \<and> doc_head (showImmobileFallback p) = doc_head p
   \<and> doc_body (showImmobileFallback p) = doc_body p
   \<and> map_option detail_gallery (detail_wrap (showImmobileFallback p))
       = map_option detail_gallery (detail_wrap p)
   \<and> map_option detail_sections (detail_wrap (showImmobileFallback p))
       = map_option detail_sections (detail_wrap p)"
proof (intro conjI impI)
  show "findImmobileById immobili ident =
     (if truthy ident then find (\<lambda>item. ToString (id_field item) = ToString ident) immobili else None)"
    by (rule findImmobileById_find)
next
  assume "id_field e = JNum 7"
  then show "findImmobileById [e] (JStr ''7'') = Some e"
    by (simp add: findImmobileById_find decimal_seven)
next
  assume "id_field e = JStr ''7''"
  then show "findImmobileById [e] (JNum 7) = Some e"
    by (simp add: findImmobileById_find decimal_seven)
next
  assume "query_id p = None \<or> query_id p = Some []"
  then show "findImmobileById immobili (getQueryParam (query_id p)) = None"
    by (auto simp: findImmobileById_find getQueryParam_def)
next
  assume "\<forall>item\<in>set immobili. ToString (id_field item) \<noteq> ToString ident"
  then show "findImmobileById immobili ident = None"
    by (simp add: findImmobileById_find find_None)
next
  assume "detail_wrap p \<noteq> None \<and> fetchImmobili outcome = Inr immobili
        \<and> findImmobileById immobili (getQueryParam (query_id p)) = None"
  then show "initImmobileDetail p outcome = showImmobileFallback p"
    using initImmobileDetail_not_found by blast
qed (rule showImmobileFallback_frame)+

lemma fetch_success:
  "response_ok status \<Longrightarrow> fetchImmobili (Response status (Valid (Data_array xs))) = Inr xs"
  by (simp add: fetchImmobili_def catch_promise_def then_promise_def fetch_def response_json_def)

lemma detail_found_example:
  "doc_title (initImmobileDetail sample_page (Response 200 (Valid (Data_array
      [(entry (JNum 7) (JNum 100000) (JStr ''sale'') (JStr ''Milano''))\<lparr>titolo := JStr ''Villa <A>''\<rparr>]))))
     = ''Villa &lt;A&gt; | Immobili | Agenzia Immobiliare''
   \<and> count_id ''jsonld-offer'' (initImmobileDetail sample_page (Response 200 (Valid (Data_array
      [(entry (JNum 7) (JNum 100000) (JStr ''sale'') (JStr ''Milano''))\<lparr>titolo := JStr ''Villa <A>''\<rparr>]))))
     = 1
   \<and> map_option detail_gallery (detail_wrap (initImmobileDetail sample_page (Response 200 (Valid (Data_array
      [(entry (JNum 7) (JNum 100000) (JStr ''sale'') (JStr ''Milano''))\<lparr>titolo := JStr ''Villa <A>''\<rparr>])))))
     = Some (Some (Some \<lparr>main_src = JStr ''assets/img/placeholders/placeholder.jpg'',
                          main_alt = JStr ''Villa <A>'', thumbs = []\<rparr>))"
proof -
  have ok: "response_ok 200" by (simp add: response_ok_def)
  show ?thesis
    by (simp add: initImmobileDetail_def fetch_success [OF ok] then_promise_def sample_page_def
        getQueryParam_def findImmobileById_def decimal_seven entry_def updateMetaTags_def
        escapeHtml_def escape_char_def injectJsonLdOffer_def offer_script_def getElementById_def
        renderImmobileDetail_def renderGallery_def getPrimaImmagine_def js_or_def count_id_def
        Let_def)
qed

theorem detail_resolution_witness:
  "id_field (entry (JNum 7) (JNum 100000) (JStr ''sale'') (JStr ''Milano'')) = JNum 7
   \<and> findImmobileById [entry (JNum 7) (JNum 100000) (JStr ''sale'') (JStr ''Milano'')] (JStr ''7'')
       = Some (entry (JNum 7) (JNum 100000) (JStr ''sale'') (JStr ''Milano''))
   \<and> id_field (entry (JStr ''7'') JNull JNull JNull) = JStr ''7''
   \<and> findImmobileById [entry (JStr ''7'') JNull JNull JNull] (JNum 7)
       = Some (entry (JStr ''7'') JNull JNull JNull)
   \<and> query_id (sample_page\<lparr>query_id := None\<rparr>) = None
   \<and> findImmobileById [entry (JNum 7) (JNum 100000) (JStr ''sale'') (JStr ''Milano'')]
        (getQueryParam (query_id (sample_page\<lparr>query_id := None\<rparr>))) = None
   \<and> findImmobileById [entry (JNum 7) (JNum 100000) (JStr ''sale'') (JStr ''Milano'')] (JStr ''99'') = None
   \<and> detail_wrap (sample_page\<lparr>query_id := Some ''99''\<rparr>) \<noteq> None
   \<and> initImmobileDetail (sample_page\<lparr>query_id := Some ''99''\<rparr>)
        (Response 200 (Valid (Data_array [entry (JNum 7) (JNum 100000) (JStr ''sale'') (JStr ''Milano'')])))
       = showImmobileFallback (sample_page\<lparr>query_id := Some ''99''\<rparr>)
   \<and> doc_head (initImmobileDetail (sample_page\<lparr>query_id := Some ''99''\<rparr>)
        (Response 200 (Valid (Data_array [entry (JNum 7) (JNum 100000) (JStr ''sale'') (JStr ''Milano'')]))))
       = []
   \<and> doc_title (initImmobileDetail (sample_page\<lparr>query_id := Some ''99''\<rparr>)
        (Response 200 (Valid (Data_array [entry (JNum 7) (JNum 100000) (JStr ''sale'') (JStr ''Milano'')]))))
       = ''Immobile''"
proof -
  let ?e = "entry (JNum 7) (JNum 100000) (JStr ''sale'') (JStr ''Milano'')"
  let ?s = "entry (JStr ''7'') JNull JNull JNull"
  let ?p = "sample_page\<lparr>query_id := Some ''99''\<rparr>"
  let ?q = "sample_page\<lparr>query_id := None\<rparr>"
  let ?out = "Response 200 (Valid (Data_array [?e]))"
  have 1: "id_field ?e = JNum 7" by (simp add: entry_def)
  have 2: "id_field ?s = JStr ''7''" by (simp add: entry_def)
  have 3: "query_id ?q = None" by simp
  have 4: "\<forall>item\<in>set [?e]. ToString (id_field item) \<noteq> ToString (JStr ''99'')"
    by (simp add: entry_def decimal_seven)
  have 5: "detail_wrap ?p \<noteq> None" by (simp add: sample_page_def)
  have 6: "fetchImmobili ?out = Inr [?e]" by (rule fetch_success) (simp add: response_ok_def)
  have q99: "getQueryParam (query_id ?p) = JStr ''99''" by (simp add: getQueryParam_def)
  note A = detail_resolution [of "[?e]" "JStr ''99''" ?e ?p ?out]
  note B = detail_resolution [of "[?s]" "JNum 7" ?s ?q ?out]
  note C = detail_resolution [of "[?e]" "JStr ''7''" ?e ?q ?out]
  from A 1 have a: "findImmobileById [?e] (JStr ''7'') = Some ?e" by blast
  from B 2 have b: "findImmobileById [?s] (JNum 7) = Some ?s" by blast
  from C 3 have c: "findImmobileById [?e] (getQueryParam (query_id ?q)) = None" by blast
  from A 4 have d: "findImmobileById [?e] (JStr ''99'') = None" by blast
  from A 5 6 d q99 have e: "initImmobileDetail ?p ?out = showImmobileFallback ?p" by simp
  from A have "doc_head (showImmobileFallback ?p) = doc_head ?p"
    and "doc_title (showImmobileFallback ?p) = doc_title ?p" by blast+
  with e have f: "doc_head (initImmobileDetail ?p ?out) = []"
    and g: "doc_title (initImmobileDetail ?p ?out) = ''Immobile''"
    by (simp_all add: sample_page_def)
  from 1 a 2 b 3 c d 5 e f g show ?thesis by (intro conjI)
qed

section \<open>Properties of the structured-data blocks\<close>


lemma remove_first_other:
  "j \<noteq> i \<Longrightarrow> filter (\<lambda>x. el_id x = j) (remove_first i xs) = filter (\<lambda>x. el_id x = j) xs"
  by (induction xs) auto





lemma count_remove_element_other:
  "j \<noteq> i \<Longrightarrow> count_id j (remove_element p i) = count_id j p"
  by (simp add: remove_element_def count_id_def remove_first_other)



lemma injectJsonLdOffer_other:
  "j \<noteq> ''jsonld-offer'' \<Longrightarrow> count_id j (injectJsonLdOffer p e) = count_id j p"
proof (cases "getElementById p ''jsonld-offer''")
  case None
  assume "j \<noteq> ''jsonld-offer''"
  with None show ?thesis by (auto simp: injectJsonLdOffer_def count_id_def offer_script_def Let_def)
next
  case (Some x)
  assume j: "j \<noteq> ''jsonld-offer''"
  have "count_id j (injectJsonLdOffer p e) = count_id j (remove_element p ''jsonld-offer'')"
    using Some j by (auto simp: injectJsonLdOffer_def count_id_def offer_script_def Let_def)
  with j show ?thesis by (simp add: count_remove_element_other)
qed











section \<open>The sort model is the only stable sort\<close>

lemma stable_sorted_unique:
  assumes total: "\<And>x y. x \<in> set ys \<Longrightarrow> y \<in> set ys \<Longrightarrow> \<not> R x y \<Longrightarrow> R y x"
    and perm: "mset zs = mset ys"
    and sy: "sorted_wrt R ys" and sz: "sorted_wrt R zs"
    and stable: "\<And>x. x \<in> set ys \<Longrightarrow>
        filter (\<lambda>w. R x w \<and> R w x) zs = filter (\<lambda>w. R x w \<and> R w x) ys"
  shows "zs = ys"
  using total perm sy sz stable
proof (induction ys arbitrary: zs)
  case Nil
  then show ?case by simp
next
  case (Cons y ys)
  have refl: "R y y" using Cons.prems(1) [of y y] by auto
  from Cons.prems(2) have "zs \<noteq> []" by auto
  then obtain z zs' where zs: "zs = z # zs'" by (cases zs) auto
  have sets: "set zs = set (y # ys)" using mset_eq_setD [OF Cons.prems(2)] .
  have z_in: "z \<in> set (y # ys)" using sets zs by auto
  have y_in: "y \<in> set zs" using sets by auto
  have Ryz: "R y z"
  proof (cases "z = y")
    case True
    with refl show ?thesis by simp
  next
    case False
    with z_in have "z \<in> set ys" by simp
    with Cons.prems(3) show ?thesis by simp
  qed
  have Rzy: "R z y"
  proof (cases "z = y")
    case True
    with refl show ?thesis by simp
  next
    case False
    with y_in zs have "y \<in> set zs'" by simp
    with Cons.prems(4) zs show ?thesis by simp
  qed
  have "filter (\<lambda>w. R y w \<and> R w y) zs = filter (\<lambda>w. R y w \<and> R w y) (y # ys)"
    by (rule Cons.prems(5)) simp
  with zs Ryz Rzy refl have zy: "z = y" by simp
  have "zs' = ys"
  proof (rule Cons.IH)
    fix a b assume "a \<in> set ys" "b \<in> set ys" "\<not> R a b"
    then show "R b a" using Cons.prems(1) [of a b] by simp
  next
    show "mset zs' = mset ys" using Cons.prems(2) zs zy by simp
  next
    show "sorted_wrt R ys" using Cons.prems(3) by simp
  next
    show "sorted_wrt R zs'" using Cons.prems(4) zs by simp
  next
    fix x assume x: "x \<in> set ys"
    have "filter (\<lambda>w. R x w \<and> R w x) zs = filter (\<lambda>w. R x w \<and> R w x) (y # ys)"
      by (rule Cons.prems(5)) (use x in simp)
    then show "filter (\<lambda>w. R x w \<and> R w x) zs' = filter (\<lambda>w. R x w \<and> R w x) ys"
      using zs zy by (cases "R x y \<and> R y x") simp_all
  qed
  with zs zy show ?case by simp
qed

text \<open>
  Whatever algorithm the host uses: when the comparator returns for every pair and
  its order is total and transitive on the elements, a list that holds the same
  elements, is ordered by the comparator and keeps the elements the comparator ranks
  equal in their input order is the result of \<open>Array_sort\<close>.
\<close>

lemma Array_sort_unique:
  assumes ret: "\<forall>x\<in>set xs. \<forall>y\<in>set xs. \<exists>v. cmp x y = Inr v"
    and total: "\<And>x y. x \<in> set xs \<Longrightarrow> y \<in> set xs \<Longrightarrow> \<not> cmp_le cmp x y \<Longrightarrow> cmp_le cmp y x"
    and trans: "\<And>x y z. x \<in> set xs \<Longrightarrow> y \<in> set xs \<Longrightarrow> z \<in> set xs \<Longrightarrow>
                  cmp_le cmp x y \<Longrightarrow> cmp_le cmp y z \<Longrightarrow> cmp_le cmp x z"
    and perm: "mset zs = mset xs"
    and sorted: "sorted_wrt (cmp_le cmp) zs"
    and stable: "\<And>x. x \<in> set xs \<Longrightarrow>
        filter (\<lambda>w. cmp_le cmp x w \<and> cmp_le cmp w x) zs
          = filter (\<lambda>w. cmp_le cmp x w \<and> cmp_le cmp w x) xs"
  shows "Array_sort cmp xs = Inr zs"
proof -
  from Array_sort_returns [OF ret] obtain ys where ys: "Array_sort cmp xs = Inr ys" by blast
  have m: "mset ys = mset xs" using ys by (rule Array_sort_mset)
  have s: "set ys = set xs" using ys by (rule Array_sort_set)
  have sy: "sorted_wrt (cmp_le cmp) ys"
    by (rule Array_sort_sorted [OF ys]) (erule (2) total, erule (4) trans)
  have fy: "\<And>x. x \<in> set xs \<Longrightarrow>
      filter (\<lambda>w. cmp_le cmp x w \<and> cmp_le cmp w x) ys
        = filter (\<lambda>w. cmp_le cmp x w \<and> cmp_le cmp w x) xs"
  proof -
    fix x assume x: "x \<in> set xs"
    show "filter (\<lambda>w. cmp_le cmp x w \<and> cmp_le cmp w x) ys
        = filter (\<lambda>w. cmp_le cmp x w \<and> cmp_le cmp w x) xs"
    proof (rule Array_sort_filter [OF ys], intro ballI impI)
      fix a b assume a: "a \<in> set xs" and b: "b \<in> set xs"
        and ab: "(cmp_le cmp x a \<and> cmp_le cmp a x) \<and> cmp_le cmp x b \<and> cmp_le cmp b x"
      from ab have 1: "cmp_le cmp a x" and 2: "cmp_le cmp x b" by simp_all
      show "cmp_le cmp a b" by (rule trans [OF a x b 1 2])
    qed
  qed
  have "zs = ys"
  proof (rule stable_sorted_unique [where R = "cmp_le cmp"])
    fix x y assume "x \<in> set ys" "y \<in> set ys" "\<not> cmp_le cmp x y"
    then show "cmp_le cmp y x" using total [of x y] s by simp
  next
    show "mset zs = mset ys" using perm m by simp
  next
    show "sorted_wrt (cmp_le cmp) ys" by (rule sy)
  next
    show "sorted_wrt (cmp_le cmp) zs" by (rule sorted)
  next
    fix x assume "x \<in> set ys"
    then have x: "x \<in> set xs" using s by simp
    show "filter (\<lambda>w. cmp_le cmp x w \<and> cmp_le cmp w x) zs
        = filter (\<lambda>w. cmp_le cmp x w \<and> cmp_le cmp w x) ys"
      using stable [OF x] fy [OF x] by simp
  qed
  with ys show ?thesis by simp
qed

end
